theory Spec2Isabelle
  imports Complex_Main "HOL-Library.Multiset" "HOL-Library.Char_ord" "HOL-Library.List_Lexorder"
begin

section \<open>Path security: opening without following symbolic links\<close>

text \<open>
  \<^verbatim>\<open>pkg/security\<close> has one \<^verbatim>\<open>openNoFollow\<close> per build tag: the file built
  with \<^verbatim>\<open>!windows\<close> calls \<^verbatim>\<open>syscall.Open\<close> with \<^verbatim>\<open>O_NOFOLLOW\<close>, the file
  built with \<^verbatim>\<open>windows\<close> does nothing. The build tag is the \<open>host\<close>; the system
  call is a parameter that answers a path with an errno or a file descriptor.
\<close>

datatype host = NotWindows | Windows

datatype errno = ELOOP | ENOTDIR | EISDIR | OtherErrno nat

type_synonym path = string

type_synonym sys_open = "path \<Rightarrow> errno + nat"

datatype security_error =
    SymlinkLoopDetected path
  | NoFollowOpenFailed path errno

fun supportsNoFollow :: "host \<Rightarrow> bool" where
  "supportsNoFollow NotWindows = True"
| "supportsNoFollow Windows = False"

text \<open>
  \<open>None\<close> is Go's \<^verbatim>\<open>nil\<close> error. On success the descriptor is closed and
  \<^verbatim>\<open>nil\<close> returned; \<^verbatim>\<open>errors.Is\<close> on a \<^verbatim>\<open>syscall.Errno\<close> against another
  errno is equality.
\<close>

fun openNoFollow :: "host \<Rightarrow> sys_open \<Rightarrow> path \<Rightarrow> security_error option" where
  "openNoFollow Windows sysOpen p = None"
| "openNoFollow NotWindows sysOpen p =
     (case sysOpen p of
        Inl err \<Rightarrow>
          if err = ELOOP then Some (SymlinkLoopDetected p)
          else if err = ENOTDIR \<or> err = EISDIR then None
          else Some (NoFollowOpenFailed p err)
      | Inr fd \<Rightarrow> None)"

fun isSymlinkLoop :: "security_error option \<Rightarrow> bool" where
  "isSymlinkLoop (Some (SymlinkLoopDetected p)) = True"
| "isSymlinkLoop e = False"

text \<open>A file system for the examples: one looping link, one directory, one plain file.\<close>

definition demoOpen :: sys_open where
  "demoOpen p =
     (if p = ''/work/loop'' then Inl ELOOP
      else if p = ''/work/dir'' then Inl EISDIR
      else if p = ''/work/file'' then Inr 3
      else Inl (OtherErrno 2))"

section \<open>Admission gate: token bucket and concurrency semaphore\<close>

text \<open>
  \<^verbatim>\<open>examples/middleware/ratelimit.go\<close>. A \<^verbatim>\<open>time.Time\<close> is a clock reading in
  nanoseconds and a \<^verbatim>\<open>time.Duration\<close> a number of nanoseconds. The \<^verbatim>\<open>float64\<close>
  fields hold exact rationals here: rounding is not modelled (at one clock reading the
  bucket only ever holds whole numbers, which \<^verbatim>\<open>float64\<close> represents exactly below
  \<open>2 ^ 53\<close>). The buffered channel \<^verbatim>\<open>concurrent\<close> carries no data, so it is the number
  of buffered elements together with its capacity. The mutex makes \<^verbatim>\<open>tryConsume\<close>
  atomic, which a function on the state is.
\<close>

type_synonym time = int

record rateLimitMiddleware =
  ratePerSec :: rat
  burst :: rat
  tokens :: rat
  lastRefill :: time
  concurrent :: nat
  concurrentCap :: nat

definition newRateLimitMiddleware :: "int \<Rightarrow> int \<Rightarrow> int \<Rightarrow> time \<Rightarrow> rateLimitMiddleware" where
  "newRateLimitMiddleware rps0 burst0 maxConcurrent0 now =
     (let rps = (if rps0 \<le> 0 then 5 else rps0);
          b = (if burst0 \<le> 0 then rps else burst0);
          maxConcurrent = (if maxConcurrent0 \<le> 0 then 2 else maxConcurrent0)
      in \<lparr> ratePerSec = of_int rps, burst = of_int b, tokens = of_int b,
           lastRefill = now, concurrent = 0, concurrentCap = nat maxConcurrent \<rparr>)"

text \<open>\<^verbatim>\<open>now.Sub(m.lastRefill).Seconds()\<close>\<close>

definition elapsedSeconds :: "time \<Rightarrow> time \<Rightarrow> rat" where
  "elapsedSeconds now since = of_int (now - since) / 1000000000"

text \<open>The first half of \<^verbatim>\<open>tryConsume\<close>: the refill, done only when time has passed.\<close>

definition refill :: "rateLimitMiddleware \<Rightarrow> time \<Rightarrow> rateLimitMiddleware" where
  "refill m now =
     (if elapsedSeconds now (lastRefill m) > 0
      then m\<lparr> tokens := (if tokens m + elapsedSeconds now (lastRefill m) * ratePerSec m > burst m
                          then burst m
                          else tokens m + elapsedSeconds now (lastRefill m) * ratePerSec m),
              lastRefill := now \<rparr>
      else m)"

text \<open>\<^verbatim>\<open>tryConsume\<close> at clock reading \<open>now\<close>: the answer and the middleware afterwards.\<close>

definition tryConsume :: "rateLimitMiddleware \<Rightarrow> time \<Rightarrow> bool \<times> rateLimitMiddleware" where
  "tryConsume m now =
     (if tokens (refill m now) < 1 then (False, refill m now)
      else (True, (refill m now)\<lparr> tokens := tokens (refill m now) - 1 \<rparr>))"

text \<open>
  The errors \<^verbatim>\<open>BeforeAgent\<close> can return: \<^verbatim>\<open>ctx.Err()\<close>, which is
  \<^verbatim>\<open>context.Canceled\<close> or \<^verbatim>\<open>context.DeadlineExceeded\<close>, and
  \<^verbatim>\<open>errors.New("ratelimit: concurrent limit reached")\<close>. A context is what
  \<^verbatim>\<open>ctx.Err()\<close> answers at each clock reading.
\<close>

datatype agent_error = Canceled | DeadlineExceeded | ConcurrentLimitReached

type_synonym ctx = "time \<Rightarrow> agent_error option"

definition background :: ctx where
  "background t = None"

definition withDeadline :: "time \<Rightarrow> ctx" where
  "withDeadline d t = (if d \<le> t then Some DeadlineExceeded else None)"

definition sleepStep :: time where
  "sleepStep = 10000000"

text \<open>
  \<^verbatim>\<open>waitForToken\<close>: the poll loop. \<^verbatim>\<open>time.Sleep\<close> advances the clock by 10 ms
  and nothing else takes time. The loop need not end (no deadline and a zero rate), so
  not returning is the value \<open>None\<close>; a return carries the error, the middleware and the
  clock reading at the return.
\<close>

partial_function (option) waitForToken ::
  "ctx \<Rightarrow> rateLimitMiddleware \<Rightarrow> time \<Rightarrow> (agent_error option \<times> rateLimitMiddleware \<times> time) option"
where
  "waitForToken c m now =
     (if c now \<noteq> None then Some (c now, m, now)
      else if fst (tryConsume m now) then Some (None, snd (tryConsume m now), now)
      else waitForToken c (snd (tryConsume m now)) (now + sleepStep))"

declare waitForToken.simps [code]

text \<open>
  The \<^verbatim>\<open>select\<close> of \<^verbatim>\<open>BeforeAgent\<close>. The send is ready when the channel has room,
  the receive from \<^verbatim>\<open>ctx.Done()\<close> when the context has an error; with both ready Go
  picks one at random (\<open>pickSend\<close> says which), and \<^verbatim>\<open>default\<close> runs when neither is.
\<close>

definition selectSlot ::
  "bool \<Rightarrow> agent_error option \<Rightarrow> rateLimitMiddleware \<Rightarrow> agent_error option \<times> rateLimitMiddleware" where
  "selectSlot pickSend ctxErr m =
     (if concurrent m < concurrentCap m \<and> (ctxErr = None \<or> pickSend)
      then (None, m\<lparr> concurrent := Suc (concurrent m) \<rparr>)
      else (case ctxErr of
              Some e \<Rightarrow> (Some e, m)
            | None \<Rightarrow> (Some ConcurrentLimitReached, m)))"

definition BeforeAgent ::
  "bool \<Rightarrow> ctx \<Rightarrow> rateLimitMiddleware \<Rightarrow> time \<Rightarrow> (agent_error option \<times> rateLimitMiddleware \<times> time) option"
where
  "BeforeAgent pickSend c m now =
     (case waitForToken c m now of
        None \<Rightarrow> None
      | Some (Some err, m', t) \<Rightarrow> Some (Some err, m', t)
      | Some (None, m', t) \<Rightarrow>
          Some (fst (selectSlot pickSend (c t) m'), snd (selectSlot pickSend (c t) m'), t))"

text \<open>\<^verbatim>\<open>AfterAgent\<close>: a receive that does not block; it always returns \<^verbatim>\<open>nil\<close>.\<close>

definition AfterAgent :: "rateLimitMiddleware \<Rightarrow> rateLimitMiddleware" where
  "AfterAgent m = (if 0 < concurrent m then m\<lparr> concurrent := concurrent m - 1 \<rparr> else m)"

definition freeSlots :: "rateLimitMiddleware \<Rightarrow> nat" where
  "freeSlots m = concurrentCap m - concurrent m"

text \<open>Acquire attempts one after the other, at the given clock readings.\<close>

fun attempts :: "rateLimitMiddleware \<Rightarrow> time list \<Rightarrow> bool list \<times> rateLimitMiddleware" where
  "attempts m [] = ([], m)"
| "attempts m (t # ts) =
     (fst (tryConsume m t) # fst (attempts (snd (tryConsume m t)) ts),
      snd (attempts (snd (tryConsume m t)) ts))"

text \<open>
  Runs sharing one middleware. The runtime calls \<^verbatim>\<open>BeforeAgent\<close> when a run starts
  and \<^verbatim>\<open>AfterAgent\<close> when a run whose \<^verbatim>\<open>BeforeAgent\<close> succeeded ends, whatever
  its outcome. A schedule interleaves these calls; the state is the middleware and the
  number of admitted runs that have not ended. A schedule that ends a run when none is
  admitted, or whose \<^verbatim>\<open>BeforeAgent\<close> never returns, has no final state.
\<close>

datatype run_event = RunStarts bool ctx time | RunEnds

fun schedule :: "run_event list \<Rightarrow> rateLimitMiddleware \<times> nat \<Rightarrow> (rateLimitMiddleware \<times> nat) option" where
  "schedule [] s = Some s"
| "schedule (RunStarts pickSend c now # es) (m, k) =
     (case BeforeAgent pickSend c m now of
        None \<Rightarrow> None
      | Some (err, m', t) \<Rightarrow> schedule es (m', if err = None then Suc k else k))"
| "schedule (RunEnds # es) (m, k) =
     (if k = 0 then None else schedule es (AfterAgent m, k - 1))"

section \<open>HTTP front end\<close>

text \<open>
  The handlers of the HTTP server (\<^verbatim>\<open>handleRun\<close>, \<^verbatim>\<open>handleStream\<close>, \<^verbatim>\<open>decode\<close>,
  \<^verbatim>\<open>requestContext\<close>, \<^verbatim>\<open>buildRunResponse\<close>). A Go \<^verbatim>\<open>string\<close> is its bytes. The
  packages \<^verbatim>\<open>pkg/api\<close> and \<^verbatim>\<open>pkg/model\<close> are not part of the sources at hand: the
  runtime is a parameter of the handlers, and the types \<^verbatim>\<open>Usage\<close>, \<^verbatim>\<open>ToolCall\<close>
  and \<^verbatim>\<open>SandboxReport\<close> are the type variables \<open>'u\<close>, \<open>'c\<close> and \<open>'s\<close>.
\<close>

subsection \<open>Requests, responses and the runtime\<close>

datatype json_value =
    JNull | JBool bool | JNumber string | JString string
  | JArray "json_value list" | JObject "(string \<times> json_value) list"

record runRequest =
  Prompt :: string
  SessionID :: string
  TimeoutMs :: int
  Tags :: "(string \<times> string) list"
  Traits :: "string list"
  Channels :: "string list"
  Metadata :: "(string \<times> json_value) list"
  ToolWhitelist :: "string list"

text \<open>\<^verbatim>\<open>var req runRequest\<close>: the zero value the decoder fills in.\<close>

definition zeroRunRequest :: runRequest where
  "zeroRunRequest = \<lparr> Prompt = [], SessionID = [], TimeoutMs = 0, Tags = [], Traits = [],
     Channels = [], Metadata = [], ToolWhitelist = [] \<rparr>"

text \<open>Modelled from the spec: the mode context of a run request, a variant of four.\<close>

datatype modeContext = CLI | HTTP | Platform | CI

record apiRequest =
  api_Prompt :: string
  api_SessionID :: string
  api_Traits :: "string list"
  api_Channels :: "string list"
  api_ToolWhitelist :: "string list"
  api_Tags :: "(string \<times> string) list"
  api_Metadata :: "(string \<times> json_value) list"
  api_Mode :: modeContext

text \<open>The copies return \<^verbatim>\<open>nil\<close> for an empty input; a list does not tell the two apart.\<close>

definition copyStrings :: "string list \<Rightarrow> string list" where
  "copyStrings xs = (if length xs = 0 then [] else xs)"

definition copyStringMap :: "(string \<times> string) list \<Rightarrow> (string \<times> string) list" where
  "copyStringMap xs = (if length xs = 0 then [] else xs)"

definition copyAnyMap :: "(string \<times> json_value) list \<Rightarrow> (string \<times> json_value) list" where
  "copyAnyMap xs = (if length xs = 0 then [] else xs)"

definition toAPIRequest :: "runRequest \<Rightarrow> modeContext \<Rightarrow> apiRequest" where
  "toAPIRequest r base =
     \<lparr> api_Prompt = Prompt r, api_SessionID = SessionID r, api_Traits = copyStrings (Traits r),
       api_Channels = copyStrings (Channels r), api_ToolWhitelist = copyStrings (ToolWhitelist r),
       api_Tags = copyStringMap (Tags r), api_Metadata = copyAnyMap (Metadata r),
       api_Mode = base \<rparr>"

text \<open>
  \<^verbatim>\<open>api.Response\<close> as far as the handler reads it: the result pointer, the tags (a
  map that may be \<^verbatim>\<open>nil\<close>) and the sandbox snapshot.
\<close>

record ('u, 'c) agentResult =
  res_Output :: string
  res_StopReason :: string
  res_Usage :: 'u
  res_ToolCalls :: "'c list"

record ('u, 'c, 's) apiResponse =
  resp_Result :: "('u, 'c) agentResult option"
  resp_Tags :: "(string \<times> string) list option"
  resp_SandboxSnapshot :: 's

text \<open>\<^verbatim>\<open>runResponse\<close>, the JSON object of a successful reply.\<close>

record ('u, 'c, 's) runResponse =
  out_SessionID :: string
  out_Output :: string
  out_StopReason :: string
  out_Usage :: 'u
  out_Tags :: "(string \<times> string) list"
  out_ToolCalls :: "'c list"
  out_Sandbox :: 's

text \<open>
  Modelled from the spec: the kinds of error a run can fail with (its error taxonomy);
  the runtime's error type is not part of the sources at hand. A runtime error is a kind
  and the text of \<^verbatim>\<open>err.Error()\<close>.
\<close>

datatype error_kind =
    InvalidRequest | RateLimited | ConcurrencyExceeded | ModelError | Timeout | Internal

datatype run_error = RunError error_kind string

text \<open>
  \<^verbatim>\<open>Runtime.Run\<close> under a context with the given timeout (nanoseconds): an error, or a
  response pointer that may be \<^verbatim>\<open>nil\<close>. \<^verbatim>\<open>Runtime.RunStream\<close>: an error or a channel.
\<close>

type_synonym ('u, 'c, 's) run_fn = "int \<Rightarrow> apiRequest \<Rightarrow> run_error + ('u, 'c, 's) apiResponse option"
type_synonym run_stream_fn = "int \<Rightarrow> apiRequest \<Rightarrow> run_error option"

text \<open>The errors of \<^verbatim>\<open>encoding/json\<close>'s decoder, \<^verbatim>\<open>io.EOF\<close> among them.\<close>

datatype json_error =
    EOF | UnexpectedEOF | SyntaxError | UnknownField string | UnmarshalTypeError string
  | Unsupported

text \<open>
  \<^verbatim>\<open>Decoder.Decode\<close> into a zero \<^verbatim>\<open>runRequest\<close>, with unknown fields disallowed: from
  the bytes the reader yields, an error or the request and the bytes not yet consumed.
\<close>

type_synonym json_decoder = "string \<Rightarrow> json_error + (runRequest \<times> string)"

datatype handler_error =
    OnlyPostSupported
  | RequestBodyEmpty
  | NotSingleObject
  | DecodeFailed json_error
  | PromptRequired
  | StreamingUnsupported
  | RuntimeFailed run_error
  | AgentResponseEmpty

datatype ('u, 'c, 's) payload =
    ErrorResponse handler_error
  | RunPayload "('u, 'c, 's) runResponse"

text \<open>What a handler wrote: a JSON reply with its status, or an event stream's frames.\<close>

datatype ('u, 'c, 's) reply =
    JSONReply nat "('u, 'c, 's) payload"
  | EventStream "string list"

fun status :: "('u, 'c, 's) reply \<Rightarrow> nat" where
  "status (JSONReply st p) = st"
| "status (EventStream frames) = 200"

record httpRequest =
  Method :: string
  Body :: "string option"

record httpServer =
  mode :: modeContext
  defaultTimeout :: int
  defaultRunTimeout :: int

definition maxBodyBytes :: nat where
  "maxBodyBytes = 2 ^ 20"

subsection \<open>\<^verbatim>\<open>decode\<close>\<close>

definition jsonSpace :: "char \<Rightarrow> bool" where
  "jsonSpace ch \<longleftrightarrow> ch = CHR '' '' \<or> ch = CHR 0x09 \<or> ch = CHR 0x0D \<or> ch = CHR 0x0A"

text \<open>
  \<^verbatim>\<open>Decoder.More\<close> at the top level: the next byte that is not white space exists and
  is neither \<^verbatim>\<open>]\<close> nor \<^verbatim>\<open>}\<close>.
\<close>

definition More :: "string \<Rightarrow> bool" where
  "More rest =
     (case dropWhile jsonSpace rest of
        [] \<Rightarrow> False
      | ch # _ \<Rightarrow> ch \<noteq> CHR '']'' \<and> ch \<noteq> CHR ''}'')"

text \<open>
  \<^verbatim>\<open>io.LimitReader(r.Body, maxBodyBytes)\<close> yields the first \<open>maxBodyBytes\<close> bytes of the
  body and then end of file.
\<close>

definition decode :: "json_decoder \<Rightarrow> httpRequest \<Rightarrow> handler_error + runRequest" where
  "decode dec r =
     (case Body r of
        None \<Rightarrow> Inl RequestBodyEmpty
      | Some b \<Rightarrow>
          (case dec (take maxBodyBytes b) of
             Inl err \<Rightarrow> if err = EOF then Inl RequestBodyEmpty else Inl (DecodeFailed err)
           | Inr (req, rest) \<Rightarrow> if More rest then Inl NotSingleObject else Inr req))"

subsection \<open>\<^verbatim>\<open>strings.TrimSpace\<close>\<close>

text \<open>
  \<^verbatim>\<open>strings.TrimSpace\<close> removes the leading and the trailing runes that
  \<^verbatim>\<open>unicode.IsSpace\<close> accepts: six ASCII characters, U+0085 and U+00A0 (two bytes in
  UTF-8), and U+1680, U+2000 to U+200A, U+2028, U+2029, U+202F, U+205F and U+3000 (three
  bytes). On the bytes of the string that is removing the encodings of these runes at
  either end.
\<close>

definition asciiSpace :: "char \<Rightarrow> bool" where
  "asciiSpace ch \<longleftrightarrow> (of_char ch :: nat) \<in> {0x09, 0x0A, 0x0B, 0x0C, 0x0D, 0x20}"

definition space2 :: "char \<Rightarrow> char \<Rightarrow> bool" where
  "space2 b1 b2 \<longleftrightarrow> (of_char b1 :: nat) = 0xC2 \<and> (of_char b2 :: nat) \<in> {0x85, 0xA0}"

definition space3 :: "char \<Rightarrow> char \<Rightarrow> char \<Rightarrow> bool" where
  "space3 b1 b2 b3 \<longleftrightarrow>
     (of_char b1 :: nat) = 0xE1 \<and> (of_char b2 :: nat) = 0x9A \<and> (of_char b3 :: nat) = 0x80
   \<or> (of_char b1 :: nat) = 0xE2 \<and> (of_char b2 :: nat) = 0x80
        \<and> ((0x80 \<le> (of_char b3 :: nat) \<and> (of_char b3 :: nat) \<le> 0x8A)
           \<or> (of_char b3 :: nat) \<in> {0xA8, 0xA9, 0xAF})
   \<or> (of_char b1 :: nat) = 0xE2 \<and> (of_char b2 :: nat) = 0x81 \<and> (of_char b3 :: nat) = 0x9F
   \<or> (of_char b1 :: nat) = 0xE3 \<and> (of_char b2 :: nat) = 0x80 \<and> (of_char b3 :: nat) = 0x80"

fun trimLeftSpace :: "string \<Rightarrow> string" where
  "trimLeftSpace [] = []"
| "trimLeftSpace (b1 # bs) =
     (if asciiSpace b1 then trimLeftSpace bs
      else case bs of
        [] \<Rightarrow> b1 # bs
      | b2 # bs2 \<Rightarrow>
          if space2 b1 b2 then trimLeftSpace bs2
          else case bs2 of
            [] \<Rightarrow> b1 # bs
          | b3 # bs3 \<Rightarrow> if space3 b1 b2 b3 then trimLeftSpace bs3 else b1 # bs)"

text \<open>The same from the end, on the reversed bytes: the encodings are read backwards.\<close>

fun trimRightSpaceRev :: "string \<Rightarrow> string" where
  "trimRightSpaceRev [] = []"
| "trimRightSpaceRev (b3 # bs) =
     (if asciiSpace b3 then trimRightSpaceRev bs
      else case bs of
        [] \<Rightarrow> b3 # bs
      | b2 # bs2 \<Rightarrow>
          if space2 b2 b3 then trimRightSpaceRev bs2
          else case bs2 of
            [] \<Rightarrow> b3 # bs
          | b1 # bs3 \<Rightarrow> if space3 b1 b2 b3 then trimRightSpaceRev bs3 else b3 # bs)"

definition TrimSpace :: "string \<Rightarrow> string" where
  "TrimSpace s = rev (trimRightSpaceRev (rev (trimLeftSpace s)))"

text \<open>The UTF-8 encodings of the white space runes.\<close>

definition spaceRunes :: "string list" where
  "spaceRunes =
     map (\<lambda>b. [b]) [CHR 0x09, CHR 0x0A, CHR 0x0B, CHR 0x0C, CHR 0x0D, CHR 0x20]
     @ map (\<lambda>b. [CHR 0xC2, b]) [CHR 0x85, CHR 0xA0]
     @ [[CHR 0xE1, CHR 0x9A, CHR 0x80]]
     @ map (\<lambda>b. [CHR 0xE2, CHR 0x80, b])
         [CHR 0x80, CHR 0x81, CHR 0x82, CHR 0x83, CHR 0x84, CHR 0x85, CHR 0x86, CHR 0x87,
          CHR 0x88, CHR 0x89, CHR 0x8A, CHR 0xA8, CHR 0xA9, CHR 0xAF]
     @ [[CHR 0xE2, CHR 0x81, CHR 0x9F], [CHR 0xE3, CHR 0x80, CHR 0x80]]"

text \<open>A string of white space only, the empty string among them.\<close>

definition whitespaceOnly :: "string \<Rightarrow> bool" where
  "whitespaceOnly s \<longleftrightarrow> (\<exists>ws. set ws \<subseteq> set spaceRunes \<and> s = concat ws)"

subsection \<open>The handlers\<close>

text \<open>
  \<^verbatim>\<open>time.Duration(timeoutMs) * time.Millisecond\<close> is a product of 64-bit integers and
  wraps around.
\<close>

definition wrap64 :: "int \<Rightarrow> int" where
  "wrap64 x = (x + 2 ^ 63) mod 2 ^ 64 - 2 ^ 63"

definition requestContext :: "httpServer \<Rightarrow> int \<Rightarrow> int" where
  "requestContext s timeoutMs =
     (let timeout = (if 0 < timeoutMs then wrap64 (timeoutMs * 1000000) else defaultTimeout s)
      in if timeout \<le> 0 then defaultRunTimeout s else timeout)"

definition buildRunResponse ::
  "('u, 'c, 's) apiResponse option \<Rightarrow> string \<Rightarrow> handler_error + ('u, 'c, 's) runResponse" where
  "buildRunResponse resp sessionID =
     (case resp of
        None \<Rightarrow> Inl AgentResponseEmpty
      | Some rp \<Rightarrow>
          (case resp_Result rp of
             None \<Rightarrow> Inl AgentResponseEmpty
           | Some res \<Rightarrow>
               Inr \<lparr> out_SessionID = sessionID, out_Output = res_Output res,
                     out_StopReason = res_StopReason res, out_Usage = res_Usage res,
                     out_Tags = (case resp_Tags rp of None \<Rightarrow> [] | Some t \<Rightarrow> t),
                     out_ToolCalls = res_ToolCalls res,
                     out_Sandbox = resp_SandboxSnapshot rp \<rparr>))"

text \<open>
  \<^verbatim>\<open>handleRun\<close>: the reply, and the calls of \<^verbatim>\<open>Runtime.Run\<close> the handler made (the
  timeout of the context and the request), in order.
\<close>

definition handleRun ::
  "json_decoder \<Rightarrow> ('u, 'c, 's) run_fn \<Rightarrow> httpServer \<Rightarrow> httpRequest
     \<Rightarrow> ('u, 'c, 's) reply \<times> (int \<times> apiRequest) list" where
  "handleRun dec run s r =
     (if Method r \<noteq> ''POST'' then (JSONReply 405 (ErrorResponse OnlyPostSupported), [])
      else case decode dec r of
        Inl err \<Rightarrow> (JSONReply 400 (ErrorResponse err), [])
      | Inr req \<Rightarrow>
          if TrimSpace (Prompt req) = [] then (JSONReply 400 (ErrorResponse PromptRequired), [])
          else
            (let timeout = requestContext s (TimeoutMs req);
                 call = (timeout, toAPIRequest req (mode s))
             in case run timeout (toAPIRequest req (mode s)) of
                  Inl err \<Rightarrow> (JSONReply 502 (ErrorResponse (RuntimeFailed err)), [call])
                | Inr resp \<Rightarrow>
                    (case buildRunResponse resp (SessionID req) of
                       Inl err \<Rightarrow> (JSONReply 500 (ErrorResponse err), [call])
                     | Inr pl \<Rightarrow> (JSONReply 200 (RunPayload pl), [call]))))"

text \<open>
  The loop of \<^verbatim>\<open>handleStream\<close> runs one \<^verbatim>\<open>select\<close> after the other. What each
  \<^verbatim>\<open>select\<close> finds is given from outside: an event, the channel closed, a tick of the
  ping ticker, or the context done. The frames written so far are the result.
\<close>

datatype 'e select_case = Received 'e | ChannelClosed | Tick | ContextDone

fun streamLoop :: "('e \<Rightarrow> string option) \<Rightarrow> 'e select_case list \<Rightarrow> string list" where
  "streamLoop marshal [] = []"
| "streamLoop marshal (Received ev # rest) =
     (case marshal ev of
        None \<Rightarrow> []
      | Some p \<Rightarrow> (''data: '' @ p @ [CHR 0x0A, CHR 0x0A]) # streamLoop marshal rest)"
| "streamLoop marshal (ChannelClosed # rest) = []"
| "streamLoop marshal (Tick # rest) =
     (''data: {\"type\":\"ping\"}'' @ [CHR 0x0A, CHR 0x0A]) # streamLoop marshal rest"
| "streamLoop marshal (ContextDone # rest) = []"

definition handleStream ::
  "json_decoder \<Rightarrow> run_stream_fn \<Rightarrow> ('e \<Rightarrow> string option) \<Rightarrow> 'e select_case list \<Rightarrow> bool
     \<Rightarrow> httpServer \<Rightarrow> httpRequest \<Rightarrow> ('u, 'c, 's) reply \<times> (int \<times> apiRequest) list" where
  "handleStream dec runStream marshal selects canFlush s r =
     (if Method r \<noteq> ''POST'' then (JSONReply 405 (ErrorResponse OnlyPostSupported), [])
      else case decode dec r of
        Inl err \<Rightarrow> (JSONReply 400 (ErrorResponse err), [])
      | Inr req \<Rightarrow>
          if TrimSpace (Prompt req) = [] then (JSONReply 400 (ErrorResponse PromptRequired), [])
          else if \<not> canFlush then (JSONReply 500 (ErrorResponse StreamingUnsupported), [])
          else
            (let timeout = requestContext s (TimeoutMs req);
                 call = (timeout, toAPIRequest req (mode s))
             in case runStream timeout (toAPIRequest req (mode s)) of
                  Some err \<Rightarrow> (JSONReply 502 (ErrorResponse (RuntimeFailed err)), [call])
                | None \<Rightarrow> (EventStream (streamLoop marshal selects), [call])))"


subsection \<open>A decoder for the examples\<close>

text \<open>
  The handlers take the JSON decoder as a parameter. The examples need one that runs:
  this one reads a JSON object whose members are strings, the way
  \<^verbatim>\<open>encoding/json\<close> does for the fields \<^verbatim>\<open>prompt\<close> and \<^verbatim>\<open>session_id\<close> (names
  compared without regard to ASCII case, the first error kept, the bytes after the
  closing brace left unread). A member value that is not a string and a \<^verbatim>\<open>\u\<close>
  escape are outside its fragment and answered \<open>Unsupported\<close>.
\<close>

datatype scan_state =
    TopValue
  | ObjectStart
  | InString bool string string
  | InEscape bool string string
  | AfterKey string
  | BeforeValue string
  | AfterValue
  | BeforeKey

definition unescape :: "char \<Rightarrow> char option" where
  "unescape ch =
     (if ch = CHR 0x22 \<or> ch = CHR 0x5C \<or> ch = CHR ''/'' then Some ch
      else if ch = CHR ''b'' then Some (CHR 0x08)
      else if ch = CHR ''f'' then Some (CHR 0x0C)
      else if ch = CHR ''n'' then Some (CHR 0x0A)
      else if ch = CHR ''r'' then Some (CHR 0x0D)
      else if ch = CHR ''t'' then Some (CHR 0x09)
      else None)"

definition startsValue :: "char \<Rightarrow> bool" where
  "startsValue ch \<longleftrightarrow> ch \<in> set ''{[-0123456789tfn'' \<or> ch = CHR 0x22"

fun scan ::
  "scan_state \<Rightarrow> (string \<times> string) list \<Rightarrow> string
     \<Rightarrow> json_error + ((string \<times> string) list \<times> string)" where
  "scan TopValue ms [] = Inl EOF"
| "scan st ms [] = Inl UnexpectedEOF"
| "scan TopValue ms (ch # cs) =
     (if jsonSpace ch then scan TopValue ms cs
      else if ch = CHR ''{'' then scan ObjectStart ms cs
      else if startsValue ch then Inl Unsupported
      else Inl SyntaxError)"
| "scan ObjectStart ms (ch # cs) =
     (if jsonSpace ch then scan ObjectStart ms cs
      else if ch = CHR ''}'' then Inr (ms, cs)
      else if ch = CHR 0x22 then scan (InString True [] []) ms cs
      else Inl SyntaxError)"
| "scan (InString isKey k acc) ms (ch # cs) =
     (if ch = CHR 0x22
      then (if isKey then scan (AfterKey (rev acc)) ms cs
            else scan AfterValue (ms @ [(k, rev acc)]) cs)
      else if ch = CHR 0x5C then scan (InEscape isKey k acc) ms cs
      else if (of_char ch :: nat) < 0x20 then Inl SyntaxError
      else scan (InString isKey k (ch # acc)) ms cs)"
| "scan (InEscape isKey k acc) ms (ch # cs) =
     (if ch = CHR ''u'' then Inl Unsupported
      else case unescape ch of
        None \<Rightarrow> Inl SyntaxError
      | Some x \<Rightarrow> scan (InString isKey k (x # acc)) ms cs)"
| "scan (AfterKey k) ms (ch # cs) =
     (if jsonSpace ch then scan (AfterKey k) ms cs
      else if ch = CHR '':'' then scan (BeforeValue k) ms cs
      else Inl SyntaxError)"
| "scan (BeforeValue k) ms (ch # cs) =
     (if jsonSpace ch then scan (BeforeValue k) ms cs
      else if ch = CHR 0x22 then scan (InString False k []) ms cs
      else if startsValue ch then Inl Unsupported
      else Inl SyntaxError)"
| "scan AfterValue ms (ch # cs) =
     (if jsonSpace ch then scan AfterValue ms cs
      else if ch = CHR '','' then scan BeforeKey ms cs
      else if ch = CHR ''}'' then Inr (ms, cs)
      else Inl SyntaxError)"
| "scan BeforeKey ms (ch # cs) =
     (if jsonSpace ch then scan BeforeKey ms cs
      else if ch = CHR 0x22 then scan (InString True [] []) ms cs
      else Inl SyntaxError)"

definition asciiLower :: "char \<Rightarrow> char" where
  "asciiLower ch =
     (if 0x41 \<le> (of_char ch :: nat) \<and> (of_char ch :: nat) \<le> 0x5A
      then char_of ((of_char ch :: nat) + 0x20) else ch)"

definition fieldIs :: "string \<Rightarrow> string \<Rightarrow> bool" where
  "fieldIs name k \<longleftrightarrow> map asciiLower k = name"

fun setFields :: "(string \<times> string) list \<Rightarrow> runRequest \<Rightarrow> json_error + runRequest" where
  "setFields [] r = Inr r"
| "setFields ((k, v) # ms) r =
     (if fieldIs ''prompt'' k then setFields ms (r\<lparr>Prompt := v\<rparr>)
      else if fieldIs ''session_id'' k then setFields ms (r\<lparr>SessionID := v\<rparr>)
      else if fieldIs ''timeout_ms'' k \<or> fieldIs ''tags'' k \<or> fieldIs ''traits'' k
              \<or> fieldIs ''channels'' k \<or> fieldIs ''metadata'' k \<or> fieldIs ''tool_whitelist'' k
      then Inl (UnmarshalTypeError k)
      else Inl (UnknownField k))"

definition stringFieldsDecoder :: json_decoder where
  "stringFieldsDecoder input =
     (case scan TopValue [] input of
        Inl err \<Rightarrow> Inl err
      | Inr (ms, rest) \<Rightarrow>
          (case setFields ms zeroRunRequest of
             Inl err \<Rightarrow> Inl err
           | Inr r \<Rightarrow> Inr (r, rest)))"

text \<open>Runtimes and a server for the examples.\<close>

definition okRuntime :: "(unit, unit, unit) run_fn" where
  "okRuntime timeout rq =
     Inr (Some \<lparr> resp_Result = Some \<lparr> res_Output = ''done'', res_StopReason = ''done'',
                                        res_Usage = (), res_ToolCalls = [] \<rparr>,
                  resp_Tags = None, resp_SandboxSnapshot = () \<rparr>)"

definition rateLimitedRuntime :: "(unit, unit, unit) run_fn" where
  "rateLimitedRuntime timeout rq = Inl (RunError RateLimited ''rate limited'')"

definition rateLimitedStream :: run_stream_fn where
  "rateLimitedStream timeout rq = Some (RunError RateLimited ''rate limited'')"

definition demoServer :: httpServer where
  "demoServer = \<lparr> mode = HTTP, defaultTimeout = 0, defaultRunTimeout = 45000000000 \<rparr>"

definition post :: "string \<Rightarrow> httpRequest" where
  "post b = \<lparr> Method = ''POST'', Body = Some b \<rparr>"

section \<open>Settings layers\<close>

text \<open>
  The merge functions of \<^verbatim>\<open>pkg/config\<close> (\<^verbatim>\<open>MergeSettings\<close>, \<^verbatim>\<open>mergeStringSlices\<close>,
  \<^verbatim>\<open>mergePermissions\<close>, \<^verbatim>\<open>mergeMCPServerRules\<close>, the loader) are not part of the
  sources at hand; their tests are. The record holds the fields of \<^verbatim>\<open>Settings\<close> that
  the tests of the merge read, one or more of each kind: strings and integers, a pointer
  to a boolean, string lists, maps, and a pointer to a nested structure.
\<close>

record permissionsConfig =
  Allow :: "string list"
  Deny :: "string list"
  Ask :: "string list"
  DefaultMode :: string
  AdditionalDirectories :: "string list"

record settings =
  APIKeyHelper :: string
  CleanupPeriodDays :: int
  CompanyAnnouncements :: "string list"
  Env :: "string \<rightharpoonup> string"
  IncludeCoAuthoredBy :: "bool option"
  Model :: string
  Permissions :: "permissionsConfig option"
  EnabledPlugins :: "string \<rightharpoonup> bool"

record mcpServerRule =
  ServerName :: string

text \<open>
  Modelled from the spec: removing duplicates from a list while preserving order, the
  first occurrence of each element staying where it is.
\<close>

primrec dedup :: "'a list \<Rightarrow> 'a list" where
  "dedup [] = []"
| "dedup (x # xs) = x # removeAll x (dedup xs)"

text \<open>
  Modelled from the spec: \<^verbatim>\<open>mergeStringSlices\<close> is missing; lists concatenate, lower
  then higher, with deduplication preserving order.
\<close>

definition mergeStringSlices :: "string list \<Rightarrow> string list \<Rightarrow> string list" where
  "mergeStringSlices lower higher = dedup (lower @ higher)"

text \<open>Modelled from the spec: the merge of two maps is missing; maps union, higher wins.\<close>

definition mergeMaps :: "('k \<rightharpoonup> 'v) \<Rightarrow> ('k \<rightharpoonup> 'v) \<Rightarrow> ('k \<rightharpoonup> 'v)" where
  "mergeMaps lower higher = lower ++ higher"

text \<open>
  Modelled from the spec: the merge of scalar fields is missing; the higher layer takes
  precedence where it sets the field. A string is set when it is not empty, an integer
  when it is not zero, a pointer when it is not \<^verbatim>\<open>nil\<close> (the tests
  \<^verbatim>\<open>TestMergeStatusLineOverrides\<close> and \<^verbatim>\<open>TestSettingsLoader_MultiLayerMerge\<close>: an empty
  string and an absent integer of the higher layer do not clobber).
\<close>

definition mergeString :: "string \<Rightarrow> string \<Rightarrow> string" where
  "mergeString lower higher = (if higher \<noteq> [] then higher else lower)"

definition mergeInt :: "int \<Rightarrow> int \<Rightarrow> int" where
  "mergeInt lower higher = (if higher \<noteq> 0 then higher else lower)"

definition mergePtr :: "'a option \<Rightarrow> 'a option \<Rightarrow> 'a option" where
  "mergePtr lower higher = (case higher of None \<Rightarrow> lower | Some v \<Rightarrow> Some v)"

text \<open>
  Modelled from the spec: \<^verbatim>\<open>mergePermissions\<close> is missing; the merge is deep, so two
  nested structures merge field by field.
\<close>

definition mergePermissions ::
  "permissionsConfig option \<Rightarrow> permissionsConfig option \<Rightarrow> permissionsConfig option" where
  "mergePermissions lower higher =
     (case (lower, higher) of
        (None, None) \<Rightarrow> None
      | (Some l, None) \<Rightarrow> Some l
      | (None, Some h) \<Rightarrow> Some h
      | (Some l, Some h) \<Rightarrow>
          Some \<lparr> Allow = mergeStringSlices (Allow l) (Allow h),
                 Deny = mergeStringSlices (Deny l) (Deny h),
                 Ask = mergeStringSlices (Ask l) (Ask h),
                 DefaultMode = mergeString (DefaultMode l) (DefaultMode h),
                 AdditionalDirectories =
                   mergeStringSlices (AdditionalDirectories l) (AdditionalDirectories h) \<rparr>)"

text \<open>Modelled from the spec: \<^verbatim>\<open>MergeSettings\<close> is missing; the deep merge of two layers.\<close>

definition MergeSettings :: "settings \<Rightarrow> settings \<Rightarrow> settings" where
  "MergeSettings lower higher =
     \<lparr> APIKeyHelper = mergeString (APIKeyHelper lower) (APIKeyHelper higher),
       CleanupPeriodDays = mergeInt (CleanupPeriodDays lower) (CleanupPeriodDays higher),
       CompanyAnnouncements =
         mergeStringSlices (CompanyAnnouncements lower) (CompanyAnnouncements higher),
       Env = mergeMaps (Env lower) (Env higher),
       IncludeCoAuthoredBy = mergePtr (IncludeCoAuthoredBy lower) (IncludeCoAuthoredBy higher),
       Model = mergeString (Model lower) (Model higher),
       Permissions = mergePermissions (Permissions lower) (Permissions higher),
       EnabledPlugins = mergeMaps (EnabledPlugins lower) (EnabledPlugins higher) \<rparr>"

text \<open>
  Modelled from the spec: the loader is missing; configuration precedence is
  managed > runtime > local > project > user. The layers are merged from the lowest to
  the highest onto the defaults, and a layer that is absent (no file, no runtime
  overrides) changes nothing.
\<close>

definition applyLayer :: "settings \<Rightarrow> settings option \<Rightarrow> settings" where
  "applyLayer acc layer = (case layer of None \<Rightarrow> acc | Some h \<Rightarrow> MergeSettings acc h)"

definition loadLayers ::
  "settings \<Rightarrow> settings option \<Rightarrow> settings option \<Rightarrow> settings option \<Rightarrow> settings option
     \<Rightarrow> settings option \<Rightarrow> settings" where
  "loadLayers defaults user project local runtime managed =
     foldl applyLayer defaults [user, project, local, runtime, managed]"

text \<open>
  Modelled from the spec: \<^verbatim>\<open>mergeMCPServerRules\<close> is missing, and here the spec's words
  (lists concatenate) are not what the repository's own test \<^verbatim>\<open>TestMergeMCPServerRules\<close>
  asserts: merging \<open>[low]\<close> with \<open>[high]\<close> gives \<open>[high]\<close>, merging with \<^verbatim>\<open>nil\<close> gives
  the lower list, merging two \<^verbatim>\<open>nil\<close> gives \<^verbatim>\<open>nil\<close>. The definition follows the test:
  the higher list replaces the lower one when it has elements.
\<close>

definition mergeMCPServerRules :: "mcpServerRule list \<Rightarrow> mcpServerRule list \<Rightarrow> mcpServerRule list" where
  "mergeMCPServerRules lower higher = (if higher = [] then lower else higher)"

text \<open>
  What the claim says of a field over the layers, highest first: the value of the first
  layer that is present and sets the field, else the default.
\<close>

fun firstSet :: "('a \<Rightarrow> bool) \<Rightarrow> 'a option list \<Rightarrow> 'a \<Rightarrow> 'a" where
  "firstSet isSet [] d = d"
| "firstSet isSet (None # ls) d = firstSet isSet ls d"
| "firstSet isSet (Some v # ls) d = (if isSet v then v else firstSet isSet ls d)"

text \<open>The lists of a field over the layers, lowest first, absent layers contributing none.\<close>

fun layerLists :: "(settings \<Rightarrow> 'a list) \<Rightarrow> settings option list \<Rightarrow> 'a list" where
  "layerLists f [] = []"
| "layerLists f (None # ls) = layerLists f ls"
| "layerLists f (Some s # ls) = f s @ layerLists f ls"

text \<open>
  The layers of the test \<^verbatim>\<open>TestSettingsLoader_MultiLayerMerge\<close>, in the fields of the
  record, and the defaults that \<^verbatim>\<open>TestSettingsLoader_MissingFiles\<close> reads back.
\<close>

definition emptySettings :: settings where
  "emptySettings = \<lparr> APIKeyHelper = [], CleanupPeriodDays = 0, CompanyAnnouncements = [],
     Env = Map.empty, IncludeCoAuthoredBy = None, Model = [], Permissions = None,
     EnabledPlugins = Map.empty \<rparr>"

definition emptyPermissions :: permissionsConfig where
  "emptyPermissions = \<lparr> Allow = [], Deny = [], Ask = [], DefaultMode = [],
     AdditionalDirectories = [] \<rparr>"

definition defaultSettings :: settings where
  "defaultSettings = emptySettings
     \<lparr> CleanupPeriodDays := 30, IncludeCoAuthoredBy := Some True,
       Permissions := Some (emptyPermissions\<lparr> DefaultMode := ''askBeforeRunningTools'' \<rparr>) \<rparr>"

definition userCfg :: settings where
  "userCfg = emptySettings
     \<lparr> Model := ''user-model'', CleanupPeriodDays := 60, Env := [''A'' \<mapsto> ''1''],
       Permissions := Some (emptyPermissions\<lparr> Allow := [''Bash(home:*)''],
                                               DefaultMode := ''askBeforeRunningTools'' \<rparr>),
       EnabledPlugins := [''alpha@core'' \<mapsto> True] \<rparr>"

definition projectCfg :: settings where
  "projectCfg = emptySettings
     \<lparr> Model := ''project-model'', CleanupPeriodDays := 20,
       Env := [''A'' \<mapsto> ''2'', ''B'' \<mapsto> ''p''],
       Permissions := Some (emptyPermissions\<lparr> Allow := [''Bash(home:*)'', ''Bash(proj:*)''],
                                               DefaultMode := ''acceptEdits'' \<rparr>),
       EnabledPlugins := [''alpha@core'' \<mapsto> False, ''beta@core'' \<mapsto> True] \<rparr>"

definition localCfg :: settings where
  "localCfg = emptySettings
     \<lparr> Model := ''local-model'', Env := [''B'' \<mapsto> ''local'', ''C'' \<mapsto> ''3''],
       Permissions := Some (emptyPermissions\<lparr> Deny := [''Delete(*)''],
                                               DefaultMode := ''acceptEdits'' \<rparr>),
       EnabledPlugins := [''beta@core'' \<mapsto> False, ''local@oss'' \<mapsto> True] \<rparr>"

definition runtimeCfg :: settings where
  "runtimeCfg = emptySettings
     \<lparr> Model := ''runtime-model'', Env := [''C'' \<mapsto> ''runtime''],
       EnabledPlugins := [''runtime@oss'' \<mapsto> True] \<rparr>"

definition managedCfg :: settings where
  "managedCfg = emptySettings
     \<lparr> Model := ''managed-model'', Env := [''C'' \<mapsto> ''managed''],
       Permissions := Some (emptyPermissions\<lparr> Allow := [''Bash(managed:*)''],
                                               DefaultMode := ''acceptEdits'' \<rparr>),
       EnabledPlugins := [''alpha@core'' \<mapsto> True] \<rparr>"

section \<open>Plugin manifests: canonical bytes and signatures\<close>

text \<open>
  \<^verbatim>\<open>pkg/plugins/signature.go\<close>. A Go map has no order and no repeated key: the map
  \<^verbatim>\<open>Hooks\<close> is an association list, read through \<open>map_of\<close>, whose order stands for
  the order in which \<^verbatim>\<open>range\<close> happens to visit the keys. \<^verbatim>\<open>sort.Strings\<close> sorts by
  the bytes of the strings, which is the order of \<open>string\<close> here. The functions of Go's
  library that the code calls (\<^verbatim>\<open>strings.ToLower\<close>, \<^verbatim>\<open>json.Marshal\<close>,
  \<^verbatim>\<open>sha256.Sum256\<close>, base64 and ed25519) are parameters, gathered in a record.
\<close>

record manifest =
  Name :: string
  Version :: string
  Description :: string
  Author :: string
  Commands :: "string list"
  Agents :: "string list"
  Skills :: "string list"
  Hooks :: "(string \<times> string list) list"
  Digest :: string
  Signer :: string
  Signature :: string
  ManifestPath :: string
  PluginDir :: string
  Trusted :: bool

text \<open>The anonymous struct that \<^verbatim>\<open>CanonicalManifestBytes\<close> marshals.\<close>

record canonicalPayload =
  cp_Name :: string
  cp_Version :: string
  cp_Description :: string
  cp_Author :: string
  cp_Commands :: "string list"
  cp_Agents :: "string list"
  cp_Skills :: "string list"
  cp_Hooks :: "(string \<times> string list) list"
  cp_Digest :: string
  cp_Signer :: string

datatype plugin_error =
    TrustStoreIsNil
  | ManifestIsNil
  | DigestBlocked string
  | UnsignedRejected
  | UnknownSigner string
  | DecodeSignatureFailed
  | SignatureVerificationFailed
  | MarshalFailed

record goLibrary =
  ToLower :: "string \<Rightarrow> string"
  jsonMarshal :: "canonicalPayload \<Rightarrow> plugin_error + string"
  sha256Sum :: "string \<Rightarrow> string"
  base64Decode :: "string \<Rightarrow> string option"
  base64Encode :: "string \<Rightarrow> string"
  ed25519Verify :: "string \<Rightarrow> string \<Rightarrow> string \<Rightarrow> bool"
  ed25519Sign :: "string \<Rightarrow> string \<Rightarrow> string"

record trustStore =
  keys :: "string \<rightharpoonup> string"
  blockedDigests :: "string set"
  allowUnsigned :: bool

text \<open>\<^verbatim>\<open>mf.Hooks[name]\<close>: the list under the key, \<^verbatim>\<open>nil\<close> when the key is absent.\<close>

definition hookValues :: "(string \<times> string list) list \<Rightarrow> string \<Rightarrow> string list" where
  "hookValues hooks name = (case map_of hooks name of None \<Rightarrow> [] | Some vals \<Rightarrow> vals)"

text \<open>The keys collected and sorted, then one entry per key with its values sorted.\<close>

definition canonicalHooks :: "(string \<times> string list) list \<Rightarrow> (string \<times> string list) list" where
  "canonicalHooks hooks =
     map (\<lambda>name. (name, sort (hookValues hooks name))) (sort (map fst hooks))"

definition canonicalPayloadOf :: "goLibrary \<Rightarrow> manifest \<Rightarrow> canonicalPayload" where
  "canonicalPayloadOf lib mf =
     \<lparr> cp_Name = Name mf, cp_Version = Version mf, cp_Description = Description mf,
       cp_Author = Author mf, cp_Commands = sort (Commands mf), cp_Agents = sort (Agents mf),
       cp_Skills = sort (Skills mf), cp_Hooks = canonicalHooks (Hooks mf),
       cp_Digest = ToLower lib (Digest mf), cp_Signer = Signer mf \<rparr>"

definition CanonicalManifestBytes :: "goLibrary \<Rightarrow> manifest option \<Rightarrow> plugin_error + string" where
  "CanonicalManifestBytes lib mf =
     (case mf of
        None \<Rightarrow> Inl ManifestIsNil
      | Some m \<Rightarrow> jsonMarshal lib (canonicalPayloadOf lib m))"

definition SignManifest :: "goLibrary \<Rightarrow> manifest option \<Rightarrow> string \<Rightarrow> plugin_error + string" where
  "SignManifest lib mf privateKey =
     (case CanonicalManifestBytes lib mf of
        Inl err \<Rightarrow> Inl err
      | Inr payload \<Rightarrow> Inr (base64Encode lib (ed25519Sign lib privateKey (sha256Sum lib payload))))"

definition isDigestBlocked :: "goLibrary \<Rightarrow> trustStore \<Rightarrow> string \<Rightarrow> bool" where
  "isDigestBlocked lib t digest \<longleftrightarrow> ToLower lib digest \<in> blockedDigests t"

text \<open>\<^verbatim>\<open>TrustStore.Verify\<close>: \<open>None\<close> is \<^verbatim>\<open>nil\<close>, the manifest passes.\<close>

definition Verify ::
  "goLibrary \<Rightarrow> trustStore option \<Rightarrow> manifest option \<Rightarrow> string \<Rightarrow> plugin_error option" where
  "Verify lib ts mfo payload =
     (case ts of
        None \<Rightarrow> Some TrustStoreIsNil
      | Some t \<Rightarrow>
          (case mfo of
             None \<Rightarrow> Some ManifestIsNil
           | Some mf \<Rightarrow>
               if isDigestBlocked lib t (Digest mf) then Some (DigestBlocked (Digest mf))
               else if Signature mf = [] \<or> Signer mf = []
               then (if allowUnsigned t then None else Some UnsignedRejected)
               else (case keys t (Signer mf) of
                       None \<Rightarrow> Some (UnknownSigner (Signer mf))
                     | Some key \<Rightarrow>
                         (case base64Decode lib (Signature mf) of
                            None \<Rightarrow> Some DecodeSignatureFailed
                          | Some sigBytes \<Rightarrow>
                              if \<not> ed25519Verify lib key (sha256Sum lib payload) sigBytes
                              then Some SignatureVerificationFailed
                              else None))))"

text \<open>
  Two manifests that differ only in the order of their lists: the same scalar fields,
  \<^verbatim>\<open>Commands\<close>, \<^verbatim>\<open>Agents\<close> and \<^verbatim>\<open>Skills\<close> a permutation of each other, the same
  keys in \<^verbatim>\<open>Hooks\<close> (each once, as in a Go map) and under each key a permutation of
  the same values.
\<close>

definition sameUpToOrder :: "manifest \<Rightarrow> manifest \<Rightarrow> bool" where
  "sameUpToOrder a b \<longleftrightarrow>
     Name a = Name b \<and> Version a = Version b \<and> Description a = Description b
     \<and> Author a = Author b \<and> Digest a = Digest b \<and> Signer a = Signer b
     \<and> Signature a = Signature b
     \<and> mset (Commands a) = mset (Commands b)
     \<and> mset (Agents a) = mset (Agents b)
     \<and> mset (Skills a) = mset (Skills b)
     \<and> distinct (map fst (Hooks a)) \<and> distinct (map fst (Hooks b))
     \<and> set (map fst (Hooks a)) = set (map fst (Hooks b))
     \<and> (\<forall>name \<in> set (map fst (Hooks a)).
           mset (hookValues (Hooks a) name) = mset (hookValues (Hooks b) name))"

text \<open>
  Stand-ins for the library in the examples: a marshaller that writes the fields one
  after the other, an identity hash and encoding, and a signature that is the key
  followed by the message. They are not the real functions, and the theorems do not
  depend on them.
\<close>

definition joinWith :: "char \<Rightarrow> string list \<Rightarrow> string" where
  "joinWith sep xs = concat (map (\<lambda>x. x @ [sep]) xs)"

definition demoMarshal :: "canonicalPayload \<Rightarrow> plugin_error + string" where
  "demoMarshal p =
     Inr (joinWith (CHR '';'')
            [cp_Name p, cp_Version p, cp_Description p, cp_Author p,
             joinWith (CHR '','') (cp_Commands p), joinWith (CHR '','') (cp_Agents p),
             joinWith (CHR '','') (cp_Skills p),
             joinWith (CHR ''|'') (map (\<lambda>(k, vs). k @ ''='' @ joinWith (CHR '','') vs) (cp_Hooks p)),
             cp_Digest p, cp_Signer p])"

definition demoLibrary :: goLibrary where
  "demoLibrary =
     \<lparr> ToLower = (\<lambda>s. s), jsonMarshal = demoMarshal, sha256Sum = (\<lambda>s. s),
       base64Decode = Some, base64Encode = (\<lambda>s. s),
       ed25519Verify = (\<lambda>key msg sg. sg = key @ msg),
       ed25519Sign = (\<lambda>key msg. key @ msg) \<rparr>"

definition demoManifest :: manifest where
  "demoManifest =
     \<lparr> Name = ''demo'', Version = ''1.2.3'', Description = [], Author = [],
       Commands = [''build'', ''test'', ''lint''], Agents = [''b'', ''a''], Skills = [],
       Hooks = [(''pre'', [''y'', ''x'']), (''post'', [''z''])],
       Digest = ''ab'', Signer = ''dev'', Signature = ''k'',
       ManifestPath = [], PluginDir = [], Trusted = False \<rparr>"

definition demoManifestPermuted :: manifest where
  "demoManifestPermuted =
     demoManifest \<lparr> Commands := [''lint'', ''build'', ''test''], Agents := [''a'', ''b''],
                    Hooks := [(''post'', [''z'']), (''pre'', [''x'', ''y''])] \<rparr>"

definition demoTrustStore :: trustStore where
  "demoTrustStore = \<lparr> keys = [''dev'' \<mapsto> ''k''], blockedDigests = {}, allowUnsigned = False \<rparr>"

section \<open>Theorems\<close>

subsection \<open>The admission gate: helper lemmas\<close>

lemma tryConsume_keeps:
  "concurrent (snd (tryConsume m now)) = concurrent m"
  "concurrentCap (snd (tryConsume m now)) = concurrentCap m"
  "ratePerSec (snd (tryConsume m now)) = ratePerSec m"
  "burst (snd (tryConsume m now)) = burst m"
  by (simp_all add: tryConsume_def refill_def)

lemma waitForToken_keeps:
  assumes "waitForToken c m now = Some r"
  shows "concurrent (fst (snd r)) = concurrent m \<and> concurrentCap (fst (snd r)) = concurrentCap m"
proof (rule waitForToken.raw_induct
    [where P = "\<lambda>c m now r. concurrent (fst (snd r)) = concurrent m
                  \<and> concurrentCap (fst (snd r)) = concurrentCap m", OF _ assms])
  fix rec :: "ctx \<Rightarrow> rateLimitMiddleware \<Rightarrow> time \<Rightarrow> (agent_error option \<times> rateLimitMiddleware \<times> time) option"
  fix c m now r
  assume IH: "\<And>c m now r. rec c m now = Some r \<Longrightarrow>
      concurrent (fst (snd r)) = concurrent m \<and> concurrentCap (fst (snd r)) = concurrentCap m"
  assume step: "(if c now \<noteq> None then Some (c now, m, now)
      else if fst (tryConsume m now) then Some (None, snd (tryConsume m now), now)
      else rec c (snd (tryConsume m now)) (now + sleepStep)) = Some r"
  show "concurrent (fst (snd r)) = concurrent m \<and> concurrentCap (fst (snd r)) = concurrentCap m"
  proof (cases "c now \<noteq> None")
    case True
    with step show ?thesis by auto
  next
    case live: False
    show ?thesis
    proof (cases "fst (tryConsume m now)")
      case True
      with live step show ?thesis by (auto simp: tryConsume_keeps)
    next
      case False
      with live step have "rec c (snd (tryConsume m now)) (now + sleepStep) = Some r" by simp
      from IH[OF this] show ?thesis by (simp add: tryConsume_keeps)
    qed
  qed
qed

lemma waitForToken_error:
  assumes "waitForToken c m now = Some r"
  shows "now \<le> snd (snd r) \<and> fst r = c (snd (snd r))"
proof (rule waitForToken.raw_induct
    [where P = "\<lambda>c m now r. now \<le> snd (snd r) \<and> fst r = c (snd (snd r))", OF _ assms])
  fix rec :: "ctx \<Rightarrow> rateLimitMiddleware \<Rightarrow> time \<Rightarrow> (agent_error option \<times> rateLimitMiddleware \<times> time) option"
  fix c m now r
  assume IH: "\<And>c m now r. rec c m now = Some r \<Longrightarrow> now \<le> snd (snd r) \<and> fst r = c (snd (snd r))"
  assume step: "(if c now \<noteq> None then Some (c now, m, now)
      else if fst (tryConsume m now) then Some (None, snd (tryConsume m now), now)
      else rec c (snd (tryConsume m now)) (now + sleepStep)) = Some r"
  show "now \<le> snd (snd r) \<and> fst r = c (snd (snd r))"
  proof (cases "c now \<noteq> None")
    case True
    with step show ?thesis by auto
  next
    case live: False
    show ?thesis
    proof (cases "fst (tryConsume m now)")
      case True
      with live step show ?thesis by auto
    next
      case False
      with live step have "rec c (snd (tryConsume m now)) (now + sleepStep) = Some r" by simp
      from IH[OF this] show ?thesis by (simp add: sleepStep_def)
    qed
  qed
qed

lemma selectSlot_live:
  "selectSlot p None m =
     (if concurrent m < concurrentCap m then (None, m\<lparr>concurrent := Suc (concurrent m)\<rparr>)
      else (Some ConcurrentLimitReached, m))"
  by (simp add: selectSlot_def)

lemma selectSlot_count:
  "concurrentCap (snd (selectSlot p e m)) = concurrentCap m"
  "concurrent (snd (selectSlot p e m)) =
     (if fst (selectSlot p e m) = None then Suc (concurrent m) else concurrent m)"
  "fst (selectSlot p e m) = None \<Longrightarrow> concurrent m < concurrentCap m"
  by (auto simp: selectSlot_def split: option.splits if_splits)

lemma BeforeAgent_count:
  assumes "BeforeAgent p c m now = Some (err, m', t)"
  shows "concurrentCap m' = concurrentCap m"
    and "concurrent m' = (if err = None then Suc (concurrent m) else concurrent m)"
    and "err = None \<Longrightarrow> concurrent m < concurrentCap m"
proof -
  from assms obtain r where w: "waitForToken c m now = Some r"
    by (auto simp: BeforeAgent_def split: option.splits)
  from waitForToken_keeps[OF w]
  have k: "concurrent (fst (snd r)) = concurrent m" "concurrentCap (fst (snd r)) = concurrentCap m"
    by simp_all
  obtain e m1 t1 where r: "r = (e, m1, t1)" by (cases r) auto
  show "concurrentCap m' = concurrentCap m"
    using assms w k r by (cases e) (auto simp: BeforeAgent_def selectSlot_count)
  show "concurrent m' = (if err = None then Suc (concurrent m) else concurrent m)"
    using assms w k r by (cases e) (auto simp: BeforeAgent_def selectSlot_count)
  show "err = None \<Longrightarrow> concurrent m < concurrentCap m"
    using assms w k r selectSlot_count(3)[of p "c t1" m1] by (cases e) (auto simp: BeforeAgent_def)
qed

lemma AfterAgent_count:
  "concurrentCap (AfterAgent m) = concurrentCap m"
  "concurrent (AfterAgent m) = concurrent m - 1"
  by (simp_all add: AfterAgent_def)

lemma schedule_balanced:
  assumes "schedule es (m, k) = Some (m', k')" and "concurrent m = k" and "k \<le> concurrentCap m"
  shows "concurrent m' = k' \<and> k' \<le> concurrentCap m' \<and> concurrentCap m' = concurrentCap m"
  using assms
proof (induction es arbitrary: m k)
  case Nil
  then show ?case by simp
next
  case (Cons ev es)
  show ?case
  proof (cases ev)
    case (RunStarts p c now)
    with Cons.prems(1) obtain err m1 t where
      b: "BeforeAgent p c m now = Some (err, m1, t)"
      and s: "schedule es (m1, if err = None then Suc k else k) = Some (m', k')"
      by (auto split: option.splits)
    from BeforeAgent_count[OF b] Cons.prems(2,3)
    have "concurrent m1 = (if err = None then Suc k else k)"
      and "(if err = None then Suc k else k) \<le> concurrentCap m1"
      and "concurrentCap m1 = concurrentCap m"
      by auto
    with Cons.IH[OF s] show ?thesis by simp
  next
    case RunEnds
    with Cons.prems(1) have k: "k \<noteq> 0" and s: "schedule es (AfterAgent m, k - 1) = Some (m', k')"
      by (auto split: if_splits)
    have "concurrent (AfterAgent m) = k - 1" "k - 1 \<le> concurrentCap (AfterAgent m)"
      using Cons.prems(2,3) by (simp_all add: AfterAgent_count)
    from Cons.IH[OF s this] show ?thesis by (simp add: AfterAgent_count)
  qed
qed

lemma refill_tokens:
  "tokens (refill m now) =
     (if 0 < elapsedSeconds now (lastRefill m)
      then min (burst m) (tokens m + elapsedSeconds now (lastRefill m) * ratePerSec m)
      else tokens m)"
  by (simp add: refill_def min_def)

lemma refill_keeps:
  "ratePerSec (refill m now) = ratePerSec m" "burst (refill m now) = burst m"
  by (simp_all add: refill_def)

lemma tryConsume_tokens:
  "fst (tryConsume m now) \<longleftrightarrow> 1 \<le> tokens (refill m now)"
  "tokens (snd (tryConsume m now)) = tokens (refill m now) - (if fst (tryConsume m now) then 1 else 0)"
  by (auto simp: tryConsume_def)

lemma refill_bounds:
  assumes "0 \<le> ratePerSec m" "tokens m \<le> burst m"
  shows "tokens m \<le> tokens (refill m now)" "tokens (refill m now) \<le> burst m"
proof -
  have "0 < elapsedSeconds now (lastRefill m) \<Longrightarrow> 0 \<le> elapsedSeconds now (lastRefill m) * ratePerSec m"
    using assms(1) by simp
  then show "tokens m \<le> tokens (refill m now)" "tokens (refill m now) \<le> burst m"
    using assms(2) by (auto simp: refill_tokens min_def)
qed

lemma tryConsume_bounds:
  assumes "0 \<le> ratePerSec m" "0 \<le> tokens m" "tokens m \<le> burst m"
  shows "0 \<le> tokens (snd (tryConsume m now)) \<and> tokens (snd (tryConsume m now)) \<le> burst m"
  using refill_bounds[OF assms(1,3), of now] assms(2)
  by (auto simp: tryConsume_def)

lemma attempts_bounds:
  assumes "0 \<le> ratePerSec m" "0 \<le> tokens m" "tokens m \<le> burst m"
  shows "0 \<le> tokens (snd (attempts m ts)) \<and> tokens (snd (attempts m ts)) \<le> burst m"
  using assms
proof (induction ts arbitrary: m)
  case Nil
  then show ?case by simp
next
  case (Cons t ts)
  from tryConsume_bounds[OF Cons.prems, of t]
  have "0 \<le> tokens (snd (tryConsume m t))" "tokens (snd (tryConsume m t)) \<le> burst (snd (tryConsume m t))"
    by (simp_all add: tryConsume_keeps)
  with Cons.IH[of "snd (tryConsume m t)"] Cons.prems(1)
  show ?case by (simp add: tryConsume_keeps)
qed

lemma attempts_all_succeed:
  assumes "0 \<le> ratePerSec m" "tokens m \<le> burst m" "of_nat (length ts) \<le> tokens m"
  shows "fst (attempts m ts) = replicate (length ts) True
         \<and> of_nat (length ts) + tokens (snd (attempts m ts)) \<ge> tokens m
         \<and> tokens (snd (attempts m ts)) \<le> burst m
         \<and> ratePerSec (snd (attempts m ts)) = ratePerSec m
         \<and> burst (snd (attempts m ts)) = burst m"
  using assms
proof (induction ts arbitrary: m)
  case Nil
  then show ?case by simp
next
  case (Cons t ts)
  let ?m1 = "snd (tryConsume m t)"
  from refill_bounds[OF Cons.prems(1,2), of t]
  have rb: "tokens m \<le> tokens (refill m t)" "tokens (refill m t) \<le> burst m" by simp_all
  from Cons.prems(3) have "1 \<le> tokens m" by simp
  with rb have ok: "fst (tryConsume m t)" by (simp add: tryConsume_tokens)
  then have tk: "tokens ?m1 = tokens (refill m t) - 1" by (simp add: tryConsume_tokens)
  have p1: "0 \<le> ratePerSec ?m1" using Cons.prems(1) by (simp add: tryConsume_keeps)
  have p2: "tokens ?m1 \<le> burst ?m1" using tk rb by (simp add: tryConsume_keeps)
  have p3: "of_nat (length ts) \<le> tokens ?m1" using tk rb Cons.prems(3) by simp
  from Cons.IH[OF p1 p2 p3] ok tk rb show ?case by (simp add: tryConsume_keeps)
qed

lemma attempts_last_fails:
  assumes "0 \<le> ratePerSec m" 
    and "tokens m \<le> of_nat n + elapsedSeconds (lastRefill m) t0 * ratePerSec m"
    and "elapsedSeconds (lastRefill m) t0 * ratePerSec m < 1"
    and "\<forall>t \<in> set ts. elapsedSeconds t t0 * ratePerSec m < 1"
  shows "length (filter id (fst (attempts m ts))) \<le> n"
  using assms
proof (induction ts arbitrary: m n)
  case Nil
  then show ?case by simp
next
  case (Cons t ts)
  let ?m1 = "snd (tryConsume m t)"
  let ?r = "ratePerSec m"
  have split: "elapsedSeconds t t0 = elapsedSeconds t (lastRefill m) + elapsedSeconds (lastRefill m) t0"
    by (simp add: elapsedSeconds_def field_simps)
  have rf: "tokens (refill m t) \<le> of_nat n + elapsedSeconds (lastRefill (refill m t)) t0 * ?r"
  proof (cases "0 < elapsedSeconds t (lastRefill m)")
    case True
    then have "tokens (refill m t) \<le> tokens m + elapsedSeconds t (lastRefill m) * ?r"
      by (simp add: refill_tokens)
    also have "\<dots> \<le> of_nat n + elapsedSeconds (lastRefill m) t0 * ?r + elapsedSeconds t (lastRefill m) * ?r"
      using Cons.prems(2) by simp
    also have "\<dots> = of_nat n + elapsedSeconds t t0 * ?r"
      by (simp add: split algebra_simps)
    finally show ?thesis using True by (simp add: refill_def)
  next
    case False
    then show ?thesis using Cons.prems(2) by (simp add: refill_def)
  qed
  have lt: "elapsedSeconds (lastRefill (refill m t)) t0 * ?r < 1"
    using Cons.prems(3,4) by (simp add: refill_def)
  have lr: "lastRefill ?m1 = lastRefill (refill m t)" by (simp add: tryConsume_def)
  have p1: "0 \<le> ratePerSec ?m1" using Cons.prems(1) by (simp add: tryConsume_keeps)
  have p4: "\<forall>t \<in> set ts. elapsedSeconds t t0 * ratePerSec ?m1 < 1"
    using Cons.prems(4) by (simp add: tryConsume_keeps)
  have p3: "elapsedSeconds (lastRefill ?m1) t0 * ratePerSec ?m1 < 1"
    using lt by (simp add: lr tryConsume_keeps)
  show ?case
  proof (cases "fst (tryConsume m t)")
    case True
    then have one: "1 \<le> tokens (refill m t)" by (simp add: tryConsume_tokens)
    with rf lt have "(1::rat) \<le> of_nat n + elapsedSeconds (lastRefill (refill m t)) t0 * ?r" by linarith
    with lt have "(0::rat) < of_nat n" by linarith
    then obtain n' where n: "n = Suc n'" by (cases n) auto
    have "tokens ?m1 = tokens (refill m t) - 1" using True by (simp add: tryConsume_tokens)
    with rf n have p2: "tokens ?m1 \<le> of_nat n' + elapsedSeconds (lastRefill ?m1) t0 * ratePerSec ?m1"
      by (simp add: lr tryConsume_keeps)
    from Cons.IH[OF p1 p2 p3 p4] True n show ?thesis by simp
  next
    case False
    then have "tokens ?m1 = tokens (refill m t)" by (simp add: tryConsume_tokens)
    with rf have p2: "tokens ?m1 \<le> of_nat n + elapsedSeconds (lastRefill ?m1) t0 * ratePerSec ?m1"
      by (simp add: lr tryConsume_keeps)
    from Cons.IH[OF p1 p2 p3 p4] False show ?thesis by simp
  qed
qed

lemma attempts_append:
  "attempts m (ts @ us) =
     (fst (attempts m ts) @ fst (attempts (snd (attempts m ts)) us),
      snd (attempts (snd (attempts m ts)) us))"
  by (induction ts arbitrary: m) simp_all

lemma new_fields:
  "ratePerSec (newRateLimitMiddleware r b c t0) = of_int (if r \<le> 0 then 5 else r)"
  "burst (newRateLimitMiddleware r b c t0) = of_int (if b \<le> 0 then (if r \<le> 0 then 5 else r) else b)"
  "tokens (newRateLimitMiddleware r b c t0) = burst (newRateLimitMiddleware r b c t0)"
  "lastRefill (newRateLimitMiddleware r b c t0) = t0"
  "concurrent (newRateLimitMiddleware r b c t0) = 0"
  "concurrentCap (newRateLimitMiddleware r b c t0) = nat (if c \<le> 0 then 2 else c)"
  by (simp_all add: newRateLimitMiddleware_def Let_def)


lemma first_run_admitted:
  "BeforeAgent p (withDeadline d) (newRateLimitMiddleware 1 1 2 0) 0 =
     (if d \<le> 0 then Some (Some DeadlineExceeded, newRateLimitMiddleware 1 1 2 0, 0)
      else Some (None, \<lparr>ratePerSec = 1, burst = 1, tokens = 0, lastRefill = 0,
                       concurrent = 1, concurrentCap = 2\<rparr>, 0))"
  by (simp add: BeforeAgent_def waitForToken.simps newRateLimitMiddleware_def tryConsume_def
        refill_def elapsedSeconds_def withDeadline_def selectSlot_def sleepStep_def)

lemma second_run_polls_one_second:
  assumes "1000000000 < d"
  shows "BeforeAgent p (withDeadline d)
           \<lparr>ratePerSec = 1, burst = 1, tokens = 0, lastRefill = 0,
              concurrent = 1, concurrentCap = 2\<rparr> 0 =
         Some (None, \<lparr>ratePerSec = 1, burst = 1, tokens = 0, lastRefill = 1000000000,
                       concurrent = 2, concurrentCap = 2\<rparr>, 1000000000)"
  using assms
  by (simp add: BeforeAgent_def waitForToken.simps tryConsume_def
        refill_def elapsedSeconds_def withDeadline_def selectSlot_def sleepStep_def)

lemma second_run_short_deadline:
  "BeforeAgent p (withDeadline 500000000)
           \<lparr>ratePerSec = 1, burst = 1, tokens = 0, lastRefill = 0,
              concurrent = 1, concurrentCap = 2\<rparr> 0 =
         Some (Some DeadlineExceeded,
               \<lparr>ratePerSec = 1, burst = 1, tokens = 49 / 100, lastRefill = 490000000,
                  concurrent = 1, concurrentCap = 2\<rparr>, 500000000)"
  by (simp add: BeforeAgent_def waitForToken.simps tryConsume_def
        refill_def elapsedSeconds_def withDeadline_def selectSlot_def sleepStep_def)

subsection \<open>The HTTP front end: helper lemmas\<close>

lemma trimLeftSpace_rune:
  "w \<in> set spaceRunes \<Longrightarrow> trimLeftSpace (w @ rest) = trimLeftSpace rest"
  by (auto simp: spaceRunes_def asciiSpace_def space2_def space3_def)

lemma trimLeftSpace_concat:
  "set ws \<subseteq> set spaceRunes \<Longrightarrow> trimLeftSpace (concat ws) = []"
  by (induction ws) (simp_all add: trimLeftSpace_rune)

lemma TrimSpace_whitespaceOnly: "whitespaceOnly s \<Longrightarrow> TrimSpace s = []"
  by (auto simp: whitespaceOnly_def TrimSpace_def trimLeftSpace_concat)

lemma take_MiB_idem: "take maxBodyBytes (take maxBodyBytes b) = take maxBodyBytes b"
  by simp

lemma decode_Body_take:
  "decode dec (r\<lparr>Body := Some (take maxBodyBytes b)\<rparr>) = decode dec (r\<lparr>Body := Some b\<rparr>)"
  by (simp add: decode_def)

lemma scan_string_replicate:
  "0x20 \<le> (of_char ch :: nat) \<Longrightarrow> ch \<noteq> CHR 0x22 \<Longrightarrow> ch \<noteq> CHR 0x5C \<Longrightarrow>
   scan (InString isKey k acc) ms (replicate n ch) = Inl UnexpectedEOF"
  by (induction n arbitrary: acc) simp_all

lemma padded_body_decodes:
  "decode stringFieldsDecoder (post (''{\"prompt\":\"hi\"}'' @ replicate 1048576 CHR '' '')) =
     Inr (zeroRunRequest\<lparr>Prompt := ''hi''\<rparr>)"
  by (simp add: post_def decode_def maxBodyBytes_def stringFieldsDecoder_def jsonSpace_def
       fieldIs_def asciiLower_def More_def)

lemma cut_body_fails:
  "decode stringFieldsDecoder (post (''{\"prompt\":\"'' @ replicate 1048576 CHR ''a'' @ ''\"}'')) =
     Inl (DecodeFailed UnexpectedEOF)"
  by (simp add: post_def decode_def maxBodyBytes_def stringFieldsDecoder_def jsonSpace_def
       scan_string_replicate)

subsection \<open>Settings layers: helper lemmas\<close>

lemma set_dedup [simp]: "set (dedup xs) = set xs"
  by (induction xs) auto

lemma distinct_dedup [simp]: "distinct (dedup xs)"
  by (induction xs) (auto simp: distinct_removeAll)

lemma dedup_distinct: "distinct xs \<Longrightarrow> dedup xs = xs"
  by (induction xs) (auto simp: removeAll_id)

lemma removeAll_filter_commute:
  "removeAll x (filter P xs) = filter P (removeAll x xs)"
  by (induction xs) auto

lemma dedup_append:
  "dedup (xs @ ys) = dedup xs @ filter (\<lambda>y. y \<notin> set xs) (dedup ys)"
proof (induction xs)
  case Nil
  then show ?case by simp
next
  case (Cons x xs)
  have "removeAll x (filter (\<lambda>y. y \<notin> set xs) zs) = filter (\<lambda>y. y \<notin> set (x # xs)) zs" for zs
    by (induction zs) auto
  with Cons show ?case by simp
qed

lemma dedup_snoc:
  "dedup (xs @ [x]) = (if x \<in> set xs then dedup xs else dedup xs @ [x])"
  by (simp add: dedup_append)

lemma dedup_dedup_append: "dedup (dedup xs @ ys) = dedup (xs @ ys)"
  by (simp add: dedup_append dedup_distinct)

lemma mergeStringSlices_assoc:
  "mergeStringSlices (mergeStringSlices a b) c = dedup (a @ b @ c)"
  by (simp add: mergeStringSlices_def dedup_dedup_append)

lemma applyLayer_fields:
  "Model (applyLayer acc l) = firstSet (\<lambda>v. v \<noteq> []) [map_option Model l] (Model acc)"
  "CleanupPeriodDays (applyLayer acc l) =
     firstSet (\<lambda>v. v \<noteq> 0) [map_option CleanupPeriodDays l] (CleanupPeriodDays acc)"
  "IncludeCoAuthoredBy (applyLayer acc l) =
     (case l of None \<Rightarrow> IncludeCoAuthoredBy acc
      | Some h \<Rightarrow> mergePtr (IncludeCoAuthoredBy acc) (IncludeCoAuthoredBy h))"
  "Env (applyLayer acc l) = (case l of None \<Rightarrow> Env acc | Some h \<Rightarrow> Env acc ++ Env h)"
  "EnabledPlugins (applyLayer acc l) =
     (case l of None \<Rightarrow> EnabledPlugins acc | Some h \<Rightarrow> EnabledPlugins acc ++ EnabledPlugins h)"
  by (cases l; simp add: applyLayer_def MergeSettings_def mergeString_def mergeInt_def mergeMaps_def)+

lemma firstSet_snoc:
  "firstSet isSet (ls @ [l]) d = firstSet isSet ls (firstSet isSet [l] d)"
  by (induction isSet ls d rule: firstSet.induct) simp_all

lemma foldl_applyLayer_Model:
  "Model (foldl applyLayer acc ls) =
     firstSet (\<lambda>v. v \<noteq> []) (rev (map (map_option Model) ls)) (Model acc)"
proof (induction ls arbitrary: acc)
  case Nil
  then show ?case by simp
next
  case (Cons l ls)
  then show ?case by (simp add: firstSet_snoc applyLayer_fields)
qed

lemma foldl_applyLayer_Cleanup:
  "CleanupPeriodDays (foldl applyLayer acc ls) =
     firstSet (\<lambda>v. v \<noteq> 0) (rev (map (map_option CleanupPeriodDays) ls)) (CleanupPeriodDays acc)"
proof (induction ls arbitrary: acc)
  case Nil
  then show ?case by simp
next
  case (Cons l ls)
  then show ?case by (simp add: firstSet_snoc applyLayer_fields)
qed

lemma applyLayer_announcements:
  "CompanyAnnouncements (applyLayer acc l) =
     (case l of None \<Rightarrow> CompanyAnnouncements acc
      | Some h \<Rightarrow> dedup (CompanyAnnouncements acc @ CompanyAnnouncements h))"
  by (cases l) (simp_all add: applyLayer_def MergeSettings_def mergeStringSlices_def)

lemma foldl_applyLayer_announcements:
  "dedup (CompanyAnnouncements (foldl applyLayer acc ls)) =
     dedup (CompanyAnnouncements acc @ layerLists CompanyAnnouncements ls)"
proof (induction ls arbitrary: acc)
  case Nil
  then show ?case by simp
next
  case (Cons l ls)
  show ?case
  proof (cases l)
    case None
    with Cons show ?thesis by (simp add: applyLayer_announcements)
  next
    case (Some h)
    with Cons show ?thesis by (simp add: applyLayer_announcements dedup_dedup_append)
  qed
qed

lemma foldl_applyLayer_Env:
  "Env (foldl applyLayer acc ls) k =
     firstSet (\<lambda>v. v \<noteq> None) (rev (map (map_option (\<lambda>s. Env s k)) ls)) (Env acc k)"
proof (induction ls arbitrary: acc)
  case Nil
  then show ?case by simp
next
  case (Cons l ls)
  then show ?case
    by (cases l) (auto simp: firstSet_snoc applyLayer_fields map_add_def split: option.splits)
qed

lemma layerLists_all_None: "\<forall>l \<in> set ls. l = None \<Longrightarrow> layerLists f ls = []"
  by (induction f ls rule: layerLists.induct) simp_all

lemma foldl_applyLayer_all_None: "\<forall>l \<in> set ls. l = None \<Longrightarrow> foldl applyLayer acc ls = acc"
  by (induction ls arbitrary: acc) (simp_all add: applyLayer_def)

lemma foldl_applyLayer_announcements_exact:
  "CompanyAnnouncements (foldl applyLayer acc ls) =
     (if \<forall>l \<in> set ls. l = None then CompanyAnnouncements acc
      else dedup (CompanyAnnouncements acc @ layerLists CompanyAnnouncements ls))"
proof (induction ls arbitrary: acc)
  case Nil
  then show ?case by simp
next
  case (Cons l ls)
  show ?case
  proof (cases l)
    case None
    with Cons show ?thesis by (auto simp: applyLayer_announcements)
  next
    case (Some h)
    show ?thesis
    proof (cases "\<forall>l \<in> set ls. l = None")
      case True
      then show ?thesis
        using Some by (simp add: foldl_applyLayer_all_None layerLists_all_None applyLayer_announcements)
    next
      case False
      with Cons Some show ?thesis
        by (simp add: applyLayer_announcements dedup_dedup_append)
    qed
  qed
qed

lemma mergePermissions_both:
  "mergePermissions (Some l) (Some h) =
     Some \<lparr> Allow = dedup (Allow l @ Allow h), Deny = dedup (Deny l @ Deny h),
            Ask = dedup (Ask l @ Ask h),
            DefaultMode = (if DefaultMode h \<noteq> [] then DefaultMode h else DefaultMode l),
            AdditionalDirectories = dedup (AdditionalDirectories l @ AdditionalDirectories h) \<rparr>"
  by (simp add: mergePermissions_def mergeStringSlices_def mergeString_def)

text \<open>The model gives what the tests of the merge functions expect.\<close>

lemma merge_tests_replayed:
  "mergePermissions
     (Some (emptyPermissions\<lparr>Allow := [''a'', ''b''], Deny := [''c'']\<rparr>))
     (Some (emptyPermissions\<lparr>Allow := [''b'', ''c''], Deny := [''d'']\<rparr>)) =
   Some (emptyPermissions\<lparr>Allow := [''a'', ''b'', ''c''], Deny := [''c'', ''d'']\<rparr>)"
  "map_option Allow (Permissions (loadLayers defaultSettings (Some userCfg) (Some projectCfg)
      (Some localCfg) (Some runtimeCfg) (Some managedCfg))) =
     Some [''Bash(home:*)'', ''Bash(proj:*)'', ''Bash(managed:*)'']"
  "EnabledPlugins (loadLayers defaultSettings (Some userCfg) (Some projectCfg)
      (Some localCfg) (Some runtimeCfg) (Some managedCfg)) =
     [''alpha@core'' \<mapsto> True, ''beta@core'' \<mapsto> False, ''local@oss'' \<mapsto> True,
      ''runtime@oss'' \<mapsto> True]"
  "mergeMCPServerRules [\<lparr>ServerName = ''low''\<rparr>] [] = [\<lparr>ServerName = ''low''\<rparr>]"
  "mergeMCPServerRules [] [] = []"
    apply (simp add: mergePermissions_def mergeStringSlices_def mergeString_def emptyPermissions_def)
   apply (simp add: loadLayers_def applyLayer_def MergeSettings_def mergePermissions_def
      mergeStringSlices_def mergeString_def emptyPermissions_def defaultSettings_def userCfg_def
      projectCfg_def localCfg_def runtimeCfg_def managedCfg_def emptySettings_def)
    apply (rule ext)
    apply (simp add: loadLayers_def applyLayer_def MergeSettings_def mergeMaps_def
      defaultSettings_def userCfg_def
      projectCfg_def localCfg_def runtimeCfg_def managedCfg_def emptySettings_def map_add_def)
   apply (simp_all add: mergeMCPServerRules_def)
  done

subsection \<open>Plugin manifests: helper lemmas\<close>

lemma sort_mset_cong:
  fixes xs ys :: "'a::linorder list"
  shows "mset xs = mset ys \<Longrightarrow> sort xs = sort ys"
  by (rule properties_for_sort) simp_all

lemma canonicalHooks_cong:
  assumes "distinct (map fst h1)" and "distinct (map fst h2)"
    and "set (map fst h1) = set (map fst h2)"
    and "\<forall>name \<in> set (map fst h1). mset (hookValues h1 name) = mset (hookValues h2 name)"
  shows "canonicalHooks h1 = canonicalHooks h2"
proof -
  have "mset (map fst h1) = mset (map fst h2)"
    using assms(1-3) set_eq_iff_mset_eq_distinct [of "map fst h1" "map fst h2"] by blast
  then have k: "sort (map fst h1) = sort (map fst h2)" by (rule sort_mset_cong)
  have "map (\<lambda>name. (name, sort (hookValues h1 name))) (sort (map fst h1)) =
        map (\<lambda>name. (name, sort (hookValues h2 name))) (sort (map fst h1))"
  proof (rule map_cong [OF refl])
    fix name
    assume "name \<in> set (sort (map fst h1))"
    then have "name \<in> set (map fst h1)" by simp
    with assms(4) have "mset (hookValues h1 name) = mset (hookValues h2 name)" by blast
    then have "sort (hookValues h1 name) = sort (hookValues h2 name)" by (rule sort_mset_cong)
    then show "(name, sort (hookValues h1 name)) = (name, sort (hookValues h2 name))"
      by simp
  qed
  with k show ?thesis by (simp only: canonicalHooks_def)
qed

lemma canonicalPayloadOf_cong:
  assumes "sameUpToOrder a b"
  shows "canonicalPayloadOf lib a = canonicalPayloadOf lib b"
proof -
  from assms have f: "Name a = Name b" "Version a = Version b" "Description a = Description b"
    "Author a = Author b" "Digest a = Digest b" "Signer a = Signer b"
    by (simp_all add: sameUpToOrder_def)
  from assms have "mset (Commands a) = mset (Commands b)" by (simp add: sameUpToOrder_def)
  then have c: "sort (Commands a) = sort (Commands b)" by (rule sort_mset_cong)
  from assms have "mset (Agents a) = mset (Agents b)" by (simp add: sameUpToOrder_def)
  then have g: "sort (Agents a) = sort (Agents b)" by (rule sort_mset_cong)
  from assms have "mset (Skills a) = mset (Skills b)" by (simp add: sameUpToOrder_def)
  then have s: "sort (Skills a) = sort (Skills b)" by (rule sort_mset_cong)
  from assms have h: "canonicalHooks (Hooks a) = canonicalHooks (Hooks b)"
    unfolding sameUpToOrder_def by (intro canonicalHooks_cong) blast+
  show ?thesis
    unfolding canonicalPayloadOf_def f c g s h ..
qed

lemma Verify_reads_three_fields:
  assumes "Digest a = Digest b" and "Signer a = Signer b" and "Signature a = Signature b"
  shows "Verify lib ts (Some a) payload = Verify lib ts (Some b) payload"
  using assms by (auto simp: Verify_def split: option.splits)

lemma demo_sameUpToOrder: "sameUpToOrder demoManifest demoManifestPermuted"
  by (auto simp: sameUpToOrder_def demoManifest_def demoManifestPermuted_def hookValues_def)

lemma demo_bytes:
  "CanonicalManifestBytes demoLibrary (Some demoManifest) =
     Inr ''demo;1.2.3;;;build,lint,test,;a,b,;;post=z,|pre=x,y,|;ab;dev;''"
  by (simp add: CanonicalManifestBytes_def canonicalPayloadOf_def canonicalHooks_def
        hookValues_def demoLibrary_def demoMarshal_def joinWith_def demoManifest_def
        less_eq_char_def less_char_def)

subsection \<open>The claims\<close>

text \<open>
  C7. With the no-follow primitive (every host but Windows) \<open>openNoFollow\<close> returns the
  symlink-loop error exactly when the open fails with \<open>ELOOP\<close>; a successful open and the
  \<open>ENOTDIR\<close> and \<open>EISDIR\<close> failures return no error. Without the primitive (Windows)
  \<open>supportsNoFollow\<close> is false and \<open>openNoFollow\<close> returns no error for any path.
\<close>

theorem openNoFollow_symlink_loop_iff_ELOOP:
  "(isSymlinkLoop (openNoFollow NotWindows sysOpen p) \<longleftrightarrow> sysOpen p = Inl ELOOP)
   \<and> (openNoFollow NotWindows sysOpen p = Some (SymlinkLoopDetected p)
        \<longleftrightarrow> sysOpen p = Inl ELOOP)
   \<and> (sysOpen p = Inl ENOTDIR \<or> sysOpen p = Inl EISDIR \<or> (\<exists>fd. sysOpen p = Inr fd)
        \<longrightarrow> openNoFollow NotWindows sysOpen p = None)
   \<and> supportsNoFollow NotWindows
   \<and> \<not> supportsNoFollow Windows
   \<and> openNoFollow Windows sysOpen p = None"
  by (auto split: sum.splits)

theorem openNoFollow_symlink_loop_iff_ELOOP_witness:
  "isSymlinkLoop (openNoFollow NotWindows demoOpen ''/work/loop'')
   \<and> demoOpen ''/work/loop'' = Inl ELOOP
   \<and> demoOpen ''/work/dir'' = Inl EISDIR
   \<and> openNoFollow NotWindows demoOpen ''/work/dir'' = None
   \<and> openNoFollow NotWindows demoOpen ''/work/file'' = None
   \<and> \<not> isSymlinkLoop (openNoFollow NotWindows demoOpen ''/work/missing'')
   \<and> openNoFollow Windows demoOpen ''/work/loop'' = None"
  using openNoFollow_symlink_loop_iff_ELOOP [of demoOpen "''/work/loop''"]
        openNoFollow_symlink_loop_iff_ELOOP [of demoOpen "''/work/dir''"]
        openNoFollow_symlink_loop_iff_ELOOP [of demoOpen "''/work/file''"]
        openNoFollow_symlink_loop_iff_ELOOP [of demoOpen "''/work/missing''"]
  by (simp add: demoOpen_def)


text \<open>
  C4. The acquire operation refills by elapsed seconds times rate, capped at the burst
  size, and takes exactly one token when it succeeds. From the full bucket of a new
  middleware of burst \<open>b\<close>, \<open>b\<close> attempts followed by one more, all within a window
  too short to refill one token, succeed \<open>b\<close> times and then fail. Whatever the clock
  readings of the attempts, the bucket never holds more than the burst size nor less
  than nothing.
\<close>

theorem tryConsume_burst_exact:
  assumes "0 < rps" and "0 < b" and "length ts = nat b"
    and "\<forall>t \<in> set (ts @ [t']). elapsedSeconds t t0 * of_int rps < 1"
  shows "tokens (snd (tryConsume m now)) =
           (if 0 < elapsedSeconds now (lastRefill m)
            then min (burst m) (tokens m + elapsedSeconds now (lastRefill m) * ratePerSec m)
            else tokens m)
           - (if fst (tryConsume m now) then 1 else 0)
         \<and> fst (attempts (newRateLimitMiddleware rps b mc t0) (ts @ [t'])) =
             replicate (nat b) True @ [False]
         \<and> (\<forall>us. 0 \<le> tokens (snd (attempts (newRateLimitMiddleware rps b mc t0) us))
                \<and> tokens (snd (attempts (newRateLimitMiddleware rps b mc t0) us))
                    \<le> burst (newRateLimitMiddleware rps b mc t0))"
proof -
  let ?m0 = "newRateLimitMiddleware rps b mc t0"
  have r: "ratePerSec ?m0 = of_int rps" and bu: "burst ?m0 = of_int b"
    and tk: "tokens ?m0 = of_int b" and lr: "lastRefill ?m0 = t0"
    using assms(1,2) by (simp_all add: new_fields)
  have nb: "(of_nat (nat b) :: rat) = of_int b" using assms(2) by simp
  have r0: "0 \<le> ratePerSec ?m0" using assms(1) r by simp
  have first: "tokens (snd (tryConsume m now)) =
           (if 0 < elapsedSeconds now (lastRefill m)
            then min (burst m) (tokens m + elapsedSeconds now (lastRefill m) * ratePerSec m)
            else tokens m)
           - (if fst (tryConsume m now) then 1 else 0)"
    by (simp only: tryConsume_tokens(2) refill_tokens)
  have all: "fst (attempts ?m0 ts) = replicate (nat b) True"
    using attempts_all_succeed[of ?m0 ts] r0 assms(3) tk bu nb by simp
  have "length (filter id (fst (attempts ?m0 (ts @ [t'])))) \<le> nat b"
  proof (rule attempts_last_fails[where ?t0.0 = t0])
    show "0 \<le> ratePerSec ?m0" by (rule r0)
    show "tokens ?m0 \<le> of_nat (nat b) + elapsedSeconds (lastRefill ?m0) t0 * ratePerSec ?m0"
      by (simp add: tk nb lr elapsedSeconds_def)
    show "elapsedSeconds (lastRefill ?m0) t0 * ratePerSec ?m0 < 1"
      by (simp add: lr elapsedSeconds_def)
    show "\<forall>t\<in>set (ts @ [t']). elapsedSeconds t t0 * ratePerSec ?m0 < 1"
      using assms(4) by (simp only: r)
  qed
  then have "\<not> fst (tryConsume (snd (attempts ?m0 ts)) t')"
    by (auto simp: attempts_append all split: if_splits)
  then have second: "fst (attempts ?m0 (ts @ [t'])) = replicate (nat b) True @ [False]"
    by (simp add: attempts_append all)
  have third: "\<forall>us. 0 \<le> tokens (snd (attempts ?m0 us)) \<and> tokens (snd (attempts ?m0 us)) \<le> burst ?m0"
  proof
    fix us
    show "0 \<le> tokens (snd (attempts ?m0 us)) \<and> tokens (snd (attempts ?m0 us)) \<le> burst ?m0"
      using attempts_bounds[of ?m0 us] r0 tk bu assms(2) by simp
  qed
  from first second third show ?thesis by blast
qed

theorem tryConsume_burst_exact_witness:
  "fst (attempts (newRateLimitMiddleware 2 3 1 0) ([0, 100000000, 200000000] @ [400000000])) =
     replicate (nat 3) True @ [False]
   \<and> fst (attempts (newRateLimitMiddleware 2 3 1 0) [0, 100000000, 200000000, 400000000]) =
       [True, True, True, False]
   \<and> tokens (snd (attempts (newRateLimitMiddleware 2 3 1 0) [0, 100000000, 200000000, 400000000])) = 4 / 5"
proof -
  have h: "\<forall>t \<in> set ([0, 100000000, 200000000] @ [400000000]). elapsedSeconds t 0 * of_int 2 < 1"
    by (simp add: elapsedSeconds_def)
  have "fst (attempts (newRateLimitMiddleware 2 3 1 0) ([0, 100000000, 200000000] @ [400000000])) =
     replicate (nat 3) True @ [False]"
    using tryConsume_burst_exact[of 2 3 "[0, 100000000, 200000000]" 400000000 0 _ _ 1, OF _ _ _ h]
    by simp
  moreover have "tokens (snd (attempts (newRateLimitMiddleware 2 3 1 0) [0, 100000000, 200000000, 400000000])) = 4 / 5"
    by (simp add: newRateLimitMiddleware_def tryConsume_def refill_def elapsedSeconds_def)
  ultimately show ?thesis by (simp add: eval_nat_numeral)
qed


text \<open>
  C3, as the code has it. A run that finds the bucket exhausted while its context is live
  is not refused: \<open>waitForToken\<close> sleeps 10 ms and polls again. It returns \<open>nil\<close> at the
  first poll that finds a token, and an error only when the context is done, that error
  being the context's own; \<open>BeforeAgent\<close> fails with the context's error or with the
  concurrency error, and there is no rate-limit error. With rps 1, burst 1 and 2 slots,
  of two runs started at clock reading 0 the first is admitted at once, and the second
  is admitted at the poll one second later when its deadline is later than that.
\<close>

theorem waitForToken_polls_until_token_or_done:
  "(c now = None \<and> \<not> fst (tryConsume m now) \<longrightarrow>
      waitForToken c m now = waitForToken c (snd (tryConsume m now)) (now + sleepStep))
   \<and> (c now = None \<and> fst (tryConsume m now) \<longrightarrow>
      waitForToken c m now = Some (None, snd (tryConsume m now), now))
   \<and> (\<forall>e m' t. waitForToken c m now = Some (Some e, m', t) \<longrightarrow> c t = Some e \<and> now \<le> t)
   \<and> (\<forall>e m' t. BeforeAgent p c m now = Some (Some e, m', t) \<longrightarrow>
         e = ConcurrentLimitReached \<or> c t = Some e)
   \<and> (0 < d \<longrightarrow>
         BeforeAgent p (withDeadline d) (newRateLimitMiddleware 1 1 2 0) 0 =
           Some (None, \<lparr>ratePerSec = 1, burst = 1, tokens = 0, lastRefill = 0,
                         concurrent = 1, concurrentCap = 2\<rparr>, 0))
   \<and> (1000000000 < d \<longrightarrow>
         BeforeAgent p (withDeadline d)
           \<lparr>ratePerSec = 1, burst = 1, tokens = 0, lastRefill = 0,
              concurrent = 1, concurrentCap = 2\<rparr> 0 =
           Some (None, \<lparr>ratePerSec = 1, burst = 1, tokens = 0, lastRefill = 1000000000,
                         concurrent = 2, concurrentCap = 2\<rparr>, 1000000000))"
proof -
  have poll: "c now = None \<and> \<not> fst (tryConsume m now) \<longrightarrow>
      waitForToken c m now = waitForToken c (snd (tryConsume m now)) (now + sleepStep)"
    by (subst waitForToken.simps) simp
  have got: "c now = None \<and> fst (tryConsume m now) \<longrightarrow>
      waitForToken c m now = Some (None, snd (tryConsume m now), now)"
    by (subst waitForToken.simps) simp
  have err: "\<forall>e m' t. waitForToken c m now = Some (Some e, m', t) \<longrightarrow> c t = Some e \<and> now \<le> t"
  proof (intro allI impI)
    fix e m' t
    assume "waitForToken c m now = Some (Some e, m', t)"
    from waitForToken_error[OF this] show "c t = Some e \<and> now \<le> t" by simp
  qed
  have before: "\<forall>e m' t. BeforeAgent p c m now = Some (Some e, m', t) \<longrightarrow>
         e = ConcurrentLimitReached \<or> c t = Some e"
  proof (intro allI impI)
    fix e m' t
    assume b: "BeforeAgent p c m now = Some (Some e, m', t)"
    then obtain r where w: "waitForToken c m now = Some r"
      by (auto simp: BeforeAgent_def split: option.splits)
    obtain e1 m1 t1 where r: "r = (e1, m1, t1)" by (cases r) auto
    show "e = ConcurrentLimitReached \<or> c t = Some e"
    proof (cases e1)
      case None
      with b w r show ?thesis
        by (auto simp: BeforeAgent_def selectSlot_def split: if_splits option.splits)
    next
      case (Some e2)
      with b w r have "e2 = e" "t1 = t" by (simp_all add: BeforeAgent_def)
      with waitForToken_error[OF w] r Some show ?thesis by simp
    qed
  qed
  have one: "0 < d \<longrightarrow>
         BeforeAgent p (withDeadline d) (newRateLimitMiddleware 1 1 2 0) 0 =
           Some (None, \<lparr>ratePerSec = 1, burst = 1, tokens = 0, lastRefill = 0,
                         concurrent = 1, concurrentCap = 2\<rparr>, 0)"
    by (simp add: first_run_admitted)
  have two: "1000000000 < d \<longrightarrow>
         BeforeAgent p (withDeadline d)
           \<lparr>ratePerSec = 1, burst = 1, tokens = 0, lastRefill = 0,
              concurrent = 1, concurrentCap = 2\<rparr> 0 =
           Some (None, \<lparr>ratePerSec = 1, burst = 1, tokens = 0, lastRefill = 1000000000,
                         concurrent = 2, concurrentCap = 2\<rparr>, 1000000000)"
    using second_run_polls_one_second by blast
  from poll got err before one two show ?thesis by blast
qed

theorem waitForToken_polls_until_token_or_done_witness:
  "withDeadline 500000000 0 = None
   \<and> \<not> fst (tryConsume \<lparr>ratePerSec = 1, burst = 1, tokens = 0, lastRefill = 0,
                          concurrent = 1, concurrentCap = 2\<rparr> 0)
   \<and> waitForToken (withDeadline 500000000)
        \<lparr>ratePerSec = 1, burst = 1, tokens = 0, lastRefill = 0,
           concurrent = 1, concurrentCap = 2\<rparr> 0 =
      waitForToken (withDeadline 500000000)
        \<lparr>ratePerSec = 1, burst = 1, tokens = 0, lastRefill = 0,
           concurrent = 1, concurrentCap = 2\<rparr> 10000000
   \<and> fst (tryConsume (newRateLimitMiddleware 1 1 2 0) 0)
   \<and> waitForToken (withDeadline 500000000) (newRateLimitMiddleware 1 1 2 0) 0 =
       Some (None, \<lparr>ratePerSec = 1, burst = 1, tokens = 0, lastRefill = 0,
                     concurrent = 0, concurrentCap = 2\<rparr>, 0)
   \<and> BeforeAgent True (withDeadline 500000000)
        \<lparr>ratePerSec = 1, burst = 1, tokens = 0, lastRefill = 0,
           concurrent = 1, concurrentCap = 2\<rparr> 0 =
       Some (Some DeadlineExceeded,
             \<lparr>ratePerSec = 1, burst = 1, tokens = 49 / 100, lastRefill = 490000000,
                concurrent = 1, concurrentCap = 2\<rparr>, 500000000)
   \<and> withDeadline 500000000 500000000 = Some DeadlineExceeded
   \<and> (0::int) < 2000000000 \<and> (1000000000::int) < 2000000000
   \<and> BeforeAgent True (withDeadline 2000000000) (newRateLimitMiddleware 1 1 2 0) 0 =
       Some (None, \<lparr>ratePerSec = 1, burst = 1, tokens = 0, lastRefill = 0,
                     concurrent = 1, concurrentCap = 2\<rparr>, 0)
   \<and> BeforeAgent True (withDeadline 2000000000)
        \<lparr>ratePerSec = 1, burst = 1, tokens = 0, lastRefill = 0,
           concurrent = 1, concurrentCap = 2\<rparr> 0 =
       Some (None, \<lparr>ratePerSec = 1, burst = 1, tokens = 0, lastRefill = 1000000000,
                     concurrent = 2, concurrentCap = 2\<rparr>, 1000000000)"
  using waitForToken_polls_until_token_or_done
          [of "withDeadline 500000000"
              0 "\<lparr>ratePerSec = 1, burst = 1, tokens = 0, lastRefill = 0,
                   concurrent = 1, concurrentCap = 2\<rparr>" True 2000000000]
        waitForToken_polls_until_token_or_done
          [of "withDeadline 500000000" 0 "newRateLimitMiddleware 1 1 2 0" True 2000000000]
        second_run_short_deadline [of True]
  by (simp add: withDeadline_def tryConsume_def refill_def elapsedSeconds_def sleepStep_def
        newRateLimitMiddleware_def)

theorem second_run_not_rate_limited_counterexample:
  "BeforeAgent True (withDeadline 5000000000) (newRateLimitMiddleware 1 1 2 0) 0 =
     Some (None, \<lparr>ratePerSec = 1, burst = 1, tokens = 0, lastRefill = 0,
                   concurrent = 1, concurrentCap = 2\<rparr>, 0)
   \<and> BeforeAgent True (withDeadline 5000000000)
        \<lparr>ratePerSec = 1, burst = 1, tokens = 0, lastRefill = 0,
           concurrent = 1, concurrentCap = 2\<rparr> 0 =
     Some (None, \<lparr>ratePerSec = 1, burst = 1, tokens = 0, lastRefill = 1000000000,
                   concurrent = 2, concurrentCap = 2\<rparr>, 1000000000)"
  using first_run_admitted [of True 5000000000]
        second_run_polls_one_second [of 5000000000 True]
  by simp

text \<open>
  C5, as the code has it. With a live context and a token at hand \<open>BeforeAgent\<close> returns
  at the clock reading of the call: it has taken a slot, or it fails with the concurrency
  error when no slot is free. \<open>AfterAgent\<close> gives a held slot back. Over any schedule in
  which \<open>AfterAgent\<close> runs once for each run that \<open>BeforeAgent\<close> admitted, the channel
  holds one element per admitted run that has not ended, never more than its capacity;
  once every run has ended the free capacity is the configured capacity.
\<close>

theorem gate_nonblocking_and_balanced:
  "(c now = None \<and> fst (tryConsume m now) \<longrightarrow>
      BeforeAgent p c m now =
        (if concurrent m < concurrentCap m
         then Some (None, (snd (tryConsume m now))\<lparr>concurrent := Suc (concurrent m)\<rparr>, now)
         else Some (Some ConcurrentLimitReached, snd (tryConsume m now), now)))
   \<and> (0 < concurrent m \<longrightarrow>
        concurrent (AfterAgent m) = concurrent m - 1
        \<and> concurrentCap (AfterAgent m) = concurrentCap m)
   \<and> (\<forall>m' k. schedule es (newRateLimitMiddleware r b mc t0, 0) = Some (m', k) \<longrightarrow>
         concurrent m' = k \<and> k \<le> concurrentCap m'
         \<and> concurrentCap m' = nat (if mc \<le> 0 then 2 else mc)
         \<and> (k = 0 \<longrightarrow> freeSlots m' = nat (if mc \<le> 0 then 2 else mc)))"
proof -
  have gate: "c now = None \<and> fst (tryConsume m now) \<longrightarrow>
      BeforeAgent p c m now =
        (if concurrent m < concurrentCap m
         then Some (None, (snd (tryConsume m now))\<lparr>concurrent := Suc (concurrent m)\<rparr>, now)
         else Some (Some ConcurrentLimitReached, snd (tryConsume m now), now))"
  proof
    assume a: "c now = None \<and> fst (tryConsume m now)"
    then have "waitForToken c m now = Some (None, snd (tryConsume m now), now)"
      by (subst waitForToken.simps) simp
    with a show "BeforeAgent p c m now =
        (if concurrent m < concurrentCap m
         then Some (None, (snd (tryConsume m now))\<lparr>concurrent := Suc (concurrent m)\<rparr>, now)
         else Some (Some ConcurrentLimitReached, snd (tryConsume m now), now))"
      by (simp add: BeforeAgent_def selectSlot_live tryConsume_keeps)
  qed
  have after: "0 < concurrent m \<longrightarrow>
        concurrent (AfterAgent m) = concurrent m - 1
        \<and> concurrentCap (AfterAgent m) = concurrentCap m"
    by (simp add: AfterAgent_count)
  have bal: "\<forall>m' k. schedule es (newRateLimitMiddleware r b mc t0, 0) = Some (m', k) \<longrightarrow>
         concurrent m' = k \<and> k \<le> concurrentCap m'
         \<and> concurrentCap m' = nat (if mc \<le> 0 then 2 else mc)
         \<and> (k = 0 \<longrightarrow> freeSlots m' = nat (if mc \<le> 0 then 2 else mc))"
  proof (intro allI impI)
    fix m' k
    assume s: "schedule es (newRateLimitMiddleware r b mc t0, 0) = Some (m', k)"
    have "concurrent m' = k \<and> k \<le> concurrentCap m'
          \<and> concurrentCap m' = concurrentCap (newRateLimitMiddleware r b mc t0)"
      by (rule schedule_balanced[OF s]) (simp_all add: new_fields)
    then show "concurrent m' = k \<and> k \<le> concurrentCap m'
         \<and> concurrentCap m' = nat (if mc \<le> 0 then 2 else mc)
         \<and> (k = 0 \<longrightarrow> freeSlots m' = nat (if mc \<le> 0 then 2 else mc))"
      by (simp add: new_fields freeSlots_def)
  qed
  from gate after bal show ?thesis by blast
qed

theorem gate_nonblocking_and_balanced_witness:
  "background 0 = None
   \<and> fst (tryConsume (newRateLimitMiddleware 5 5 2 0) 0)
   \<and> BeforeAgent True background (newRateLimitMiddleware 5 5 2 0) 0 =
       Some (None, \<lparr>ratePerSec = 5, burst = 5, tokens = 4, lastRefill = 0,
                     concurrent = 1, concurrentCap = 2\<rparr>, 0)
   \<and> concurrent (AfterAgent \<lparr>ratePerSec = 5, burst = 5, tokens = 4, lastRefill = 0,
                     concurrent = 1, concurrentCap = 2\<rparr>) = 0
   \<and> schedule [RunStarts True background 0, RunStarts True background 0,
                RunStarts True background 0, RunEnds, RunEnds]
        (newRateLimitMiddleware 5 5 2 0, 0) =
       Some (\<lparr>ratePerSec = 5, burst = 5, tokens = 2, lastRefill = 0,
               concurrent = 0, concurrentCap = 2\<rparr>, 0)
   \<and> freeSlots \<lparr>ratePerSec = 5, burst = 5, tokens = 2, lastRefill = 0,
                 concurrent = 0, concurrentCap = 2\<rparr> = 2"
  using gate_nonblocking_and_balanced
          [of background 0 "newRateLimitMiddleware 5 5 2 0" True
              "[RunStarts True background 0, RunStarts True background 0,
                RunStarts True background 0, RunEnds, RunEnds]" 5 5 2 0]
        gate_nonblocking_and_balanced
          [of background 0 "\<lparr>ratePerSec = 5, burst = 5, tokens = 4, lastRefill = 0,
                     concurrent = 1, concurrentCap = 2\<rparr>" True "[]" 5 5 2 0]
  by (simp add: background_def BeforeAgent_def waitForToken.simps newRateLimitMiddleware_def
        tryConsume_def refill_def elapsedSeconds_def selectSlot_def AfterAgent_def freeSlots_def)

theorem BeforeAgent_context_error_counterexample:
  "freeSlots (newRateLimitMiddleware 1 1 2 0) = 2
   \<and> BeforeAgent True (withDeadline 0) (newRateLimitMiddleware 1 1 2 0) 0 =
       Some (Some DeadlineExceeded, newRateLimitMiddleware 1 1 2 0, 0)
   \<and> DeadlineExceeded \<noteq> ConcurrentLimitReached"
  by (simp add: freeSlots_def BeforeAgent_def waitForToken.simps newRateLimitMiddleware_def
        withDeadline_def)


text \<open>
  C1, as the code has it. For a POST request that decodes and has a prompt, every failure
  of the runtime is answered with status 502, whatever its kind, by \<open>handleRun\<close> and by
  \<open>handleStream\<close>, and 502 is sent in no other case. Status 500 is sent by \<open>handleRun\<close>
  exactly when the runtime returns without error an empty response, and by
  \<open>handleStream\<close> exactly when the writer cannot flush; status 400 is sent by both
  exactly for a POST request whose body does not decode or whose prompt is blank, and
  status 405 exactly for a request that is not a POST. Neither handler ever sends a status
  other than 405, 400, 502, 500 and 200: 429, 503 and 504 are never sent.
\<close>

theorem handleRun_runtime_failure_is_502:
  "(Method r = ''POST'' \<and> decode dec r = Inr req \<and> TrimSpace (Prompt req) \<noteq> [] \<longrightarrow>
      (\<forall>e. run (requestContext s (TimeoutMs req)) (toAPIRequest req (mode s)) = Inl e \<longrightarrow>
           fst (handleRun dec run s r) = JSONReply 502 (ErrorResponse (RuntimeFailed e)))
    \<and> (\<forall>e. canFlush
             \<and> runStream (requestContext s (TimeoutMs req)) (toAPIRequest req (mode s)) = Some e \<longrightarrow>
           fst (handleStream dec runStream marshal selects canFlush s r) =
             JSONReply 502 (ErrorResponse (RuntimeFailed e))))
   \<and> (status (fst (handleRun dec run s r)) = 502 \<longleftrightarrow>
        Method r = ''POST''
        \<and> (\<exists>rq e. decode dec r = Inr rq \<and> TrimSpace (Prompt rq) \<noteq> []
              \<and> run (requestContext s (TimeoutMs rq)) (toAPIRequest rq (mode s)) = Inl e))
   \<and> (status (fst (handleRun dec run s r)) = 500 \<longleftrightarrow>
        Method r = ''POST''
        \<and> (\<exists>rq resp. decode dec r = Inr rq \<and> TrimSpace (Prompt rq) \<noteq> []
              \<and> run (requestContext s (TimeoutMs rq)) (toAPIRequest rq (mode s)) = Inr resp
              \<and> (resp = None \<or> resp_Result (the resp) = None)))
   \<and> (status (fst (handleRun dec run s r)) = 400 \<longleftrightarrow>
        Method r = ''POST''
        \<and> ((\<exists>e. decode dec r = Inl e)
           \<or> (\<exists>rq. decode dec r = Inr rq \<and> TrimSpace (Prompt rq) = [])))
   \<and> (status (fst (handleRun dec run s r)) = 405 \<longleftrightarrow> Method r \<noteq> ''POST'')
   \<and> status (fst (handleRun dec run s r)) \<in> {405, 400, 502, 500, 200}
   \<and> (status (fst (handleStream dec runStream marshal selects canFlush s r)) = 502 \<longleftrightarrow>
        Method r = ''POST''
        \<and> (\<exists>rq e. decode dec r = Inr rq \<and> TrimSpace (Prompt rq) \<noteq> [] \<and> canFlush
              \<and> runStream (requestContext s (TimeoutMs rq)) (toAPIRequest rq (mode s)) = Some e))
   \<and> (status (fst (handleStream dec runStream marshal selects canFlush s r)) = 500 \<longleftrightarrow>
        Method r = ''POST''
        \<and> (\<exists>rq. decode dec r = Inr rq \<and> TrimSpace (Prompt rq) \<noteq> [] \<and> \<not> canFlush))
   \<and> (status (fst (handleStream dec runStream marshal selects canFlush s r)) = 400 \<longleftrightarrow>
        Method r = ''POST''
        \<and> ((\<exists>e. decode dec r = Inl e)
           \<or> (\<exists>rq. decode dec r = Inr rq \<and> TrimSpace (Prompt rq) = [])))
   \<and> (status (fst (handleStream dec runStream marshal selects canFlush s r)) = 405 \<longleftrightarrow>
        Method r \<noteq> ''POST'')
   \<and> status (fst (handleStream dec runStream marshal selects canFlush s r))
        \<in> {405, 400, 502, 500, 200}"
proof -
  have a: "Method r = ''POST'' \<and> decode dec r = Inr req \<and> TrimSpace (Prompt req) \<noteq> [] \<longrightarrow>
      (\<forall>e. run (requestContext s (TimeoutMs req)) (toAPIRequest req (mode s)) = Inl e \<longrightarrow>
           fst (handleRun dec run s r) = JSONReply 502 (ErrorResponse (RuntimeFailed e)))
    \<and> (\<forall>e. canFlush
             \<and> runStream (requestContext s (TimeoutMs req)) (toAPIRequest req (mode s)) = Some e \<longrightarrow>
           fst (handleStream dec runStream marshal selects canFlush s r) =
             JSONReply 502 (ErrorResponse (RuntimeFailed e)))"
    by (simp add: handleRun_def handleStream_def Let_def)
  have r502: "status (fst (handleRun dec run s r)) = 502 \<longleftrightarrow>
        Method r = ''POST''
        \<and> (\<exists>rq e. decode dec r = Inr rq \<and> TrimSpace (Prompt rq) \<noteq> []
              \<and> run (requestContext s (TimeoutMs rq)) (toAPIRequest rq (mode s)) = Inl e)"
    by (auto simp: handleRun_def Let_def split: sum.splits)
  have r500: "status (fst (handleRun dec run s r)) = 500 \<longleftrightarrow>
        Method r = ''POST''
        \<and> (\<exists>rq resp. decode dec r = Inr rq \<and> TrimSpace (Prompt rq) \<noteq> []
              \<and> run (requestContext s (TimeoutMs rq)) (toAPIRequest rq (mode s)) = Inr resp
              \<and> (resp = None \<or> resp_Result (the resp) = None))"
    by (auto simp: handleRun_def Let_def buildRunResponse_def split: sum.splits option.splits)
  have r400: "status (fst (handleRun dec run s r)) = 400 \<longleftrightarrow>
        Method r = ''POST''
        \<and> ((\<exists>e. decode dec r = Inl e)
           \<or> (\<exists>rq. decode dec r = Inr rq \<and> TrimSpace (Prompt rq) = []))"
    by (auto simp: handleRun_def Let_def split: sum.splits)
  have r405: "status (fst (handleRun dec run s r)) = 405 \<longleftrightarrow> Method r \<noteq> ''POST''"
    by (auto simp: handleRun_def Let_def split: sum.splits)
  have rset: "status (fst (handleRun dec run s r)) \<in> {405, 400, 502, 500, 200}"
    by (auto simp: handleRun_def Let_def split: sum.splits)
  have s502: "status (fst (handleStream dec runStream marshal selects canFlush s r)) = 502 \<longleftrightarrow>
        Method r = ''POST''
        \<and> (\<exists>rq e. decode dec r = Inr rq \<and> TrimSpace (Prompt rq) \<noteq> [] \<and> canFlush
              \<and> runStream (requestContext s (TimeoutMs rq)) (toAPIRequest rq (mode s)) = Some e)"
    by (auto simp: handleStream_def Let_def split: sum.splits option.splits)
  have s500: "status (fst (handleStream dec runStream marshal selects canFlush s r)) = 500 \<longleftrightarrow>
        Method r = ''POST''
        \<and> (\<exists>rq. decode dec r = Inr rq \<and> TrimSpace (Prompt rq) \<noteq> [] \<and> \<not> canFlush)"
    by (auto simp: handleStream_def Let_def split: sum.splits option.splits)
  have s400: "status (fst (handleStream dec runStream marshal selects canFlush s r)) = 400 \<longleftrightarrow>
        Method r = ''POST''
        \<and> ((\<exists>e. decode dec r = Inl e)
           \<or> (\<exists>rq. decode dec r = Inr rq \<and> TrimSpace (Prompt rq) = []))"
    by (auto simp: handleStream_def Let_def split: sum.splits option.splits)
  have s405: "status (fst (handleStream dec runStream marshal selects canFlush s r)) = 405 \<longleftrightarrow> Method r \<noteq> ''POST''"
    by (auto simp: handleStream_def Let_def split: sum.splits option.splits)
  have sset: "status (fst (handleStream dec runStream marshal selects canFlush s r)) \<in> {405, 400, 502, 500, 200}"
    by (auto simp: handleStream_def Let_def split: sum.splits option.splits)
  show ?thesis
    using a r502 r500 r400 r405 rset s502 s500 s400 s405 sset
    by (intro conjI) 
qed

theorem handleRun_runtime_failure_is_502_witness:
  "Method (post ''{\"prompt\":\"hi\"}'') = ''POST''
   \<and> decode stringFieldsDecoder (post ''{\"prompt\":\"hi\"}'') = Inr (zeroRunRequest\<lparr>Prompt := ''hi''\<rparr>)
   \<and> TrimSpace (Prompt (zeroRunRequest\<lparr>Prompt := ''hi''\<rparr>)) \<noteq> []
   \<and> fst (handleRun stringFieldsDecoder rateLimitedRuntime demoServer (post ''{\"prompt\":\"hi\"}'')) =
       JSONReply 502 (ErrorResponse (RuntimeFailed (RunError RateLimited ''rate limited'')))
   \<and> fst (handleStream stringFieldsDecoder rateLimitedStream Some [] True demoServer
            (post ''{\"prompt\":\"hi\"}'')) =
       (JSONReply 502 (ErrorResponse (RuntimeFailed (RunError RateLimited ''rate limited'')))
          :: (unit, unit, unit) reply)
   \<and> status (fst (handleRun stringFieldsDecoder okRuntime demoServer (post ''{\"prompt\":''))) = 400
   \<and> status (fst (handleRun stringFieldsDecoder okRuntime demoServer
                    \<lparr>Method = ''GET'', Body = None\<rparr>)) = 405"
proof -
  let ?r = "post ''{\"prompt\":\"hi\"}''"
  let ?req = "zeroRunRequest\<lparr>Prompt := ''hi''\<rparr>"
  have m: "Method (post b) = ''POST''" for b by (simp add: post_def)
  have d: "decode stringFieldsDecoder ?r = Inr ?req"
    by (simp add: post_def decode_def maxBodyBytes_def stringFieldsDecoder_def jsonSpace_def
          fieldIs_def asciiLower_def More_def)
  have t: "TrimSpace (Prompt ?req) \<noteq> []"
    by (simp add: TrimSpace_def asciiSpace_def space2_def space3_def)
  have f: "rateLimitedRuntime (requestContext demoServer (TimeoutMs ?req))
             (toAPIRequest ?req (mode demoServer)) = Inl (RunError RateLimited ''rate limited'')"
    by (simp add: rateLimitedRuntime_def)
  have g: "True \<and> rateLimitedStream (requestContext demoServer (TimeoutMs ?req))
             (toAPIRequest ?req (mode demoServer)) = Some (RunError RateLimited ''rate limited'')"
    by (simp add: rateLimitedStream_def)
  have bad: "decode stringFieldsDecoder (post ''{\"prompt\":'') = Inl (DecodeFailed UnexpectedEOF)"
    by (simp add: post_def decode_def maxBodyBytes_def stringFieldsDecoder_def jsonSpace_def)
  have get: "Method \<lparr>Method = ''GET'', Body = None\<rparr> \<noteq> ''POST''" by simp
  have pre: "Method ?r = ''POST'' \<and> decode stringFieldsDecoder ?r = Inr ?req \<and> TrimSpace (Prompt ?req) \<noteq> []"
    using m d t by blast
  note T1 = handleRun_runtime_failure_is_502
            [where r = ?r and dec = stringFieldsDecoder and req = ?req
               and run = rateLimitedRuntime and s = demoServer
               and runStream = rateLimitedStream and canFlush = True
               and marshal = Some and selects = "[]",
             THEN conjunct1, THEN mp, OF pre]
  have c1: "fst (handleRun stringFieldsDecoder rateLimitedRuntime demoServer ?r) =
       JSONReply 502 (ErrorResponse (RuntimeFailed (RunError RateLimited ''rate limited'')))"
    using T1 [THEN conjunct1, THEN spec, THEN mp, OF f] .
  have c2: "fst (handleStream stringFieldsDecoder rateLimitedStream Some [] True demoServer ?r) =
       (JSONReply 502 (ErrorResponse (RuntimeFailed (RunError RateLimited ''rate limited'')))
          :: (unit, unit, unit) reply)"
    using T1 [THEN conjunct2, THEN spec, THEN mp, OF g] .
  have c3: "status (fst (handleRun stringFieldsDecoder okRuntime demoServer (post ''{\"prompt\":''))) = 400"
    using handleRun_runtime_failure_is_502
            [where r = "post ''{\"prompt\":''" and dec = stringFieldsDecoder
               and run = okRuntime and s = demoServer,
             THEN conjunct2, THEN conjunct2, THEN conjunct2, THEN conjunct1]
          m [of "''{\"prompt\":''"] bad by blast
  have c4: "status (fst (handleRun stringFieldsDecoder okRuntime demoServer
                    \<lparr>Method = ''GET'', Body = None\<rparr>)) = 405"
    using handleRun_runtime_failure_is_502
            [where r = "\<lparr>Method = ''GET'', Body = None\<rparr>" and dec = stringFieldsDecoder
               and run = okRuntime and s = demoServer,
             THEN conjunct2, THEN conjunct2, THEN conjunct2, THEN conjunct2, THEN conjunct1]
          get by blast
  from m [of "''{\"prompt\":\"hi\"}''"] d t c1 c2 c3 c4 show ?thesis by blast
qed

theorem rate_limited_run_gets_502_counterexample:
  "rateLimitedRuntime 45000000000 (toAPIRequest (zeroRunRequest\<lparr>Prompt := ''hi''\<rparr>) HTTP) =
     Inl (RunError RateLimited ''rate limited'')
   \<and> handleRun stringFieldsDecoder rateLimitedRuntime demoServer (post ''{\"prompt\":\"hi\"}'') =
       (JSONReply 502 (ErrorResponse (RuntimeFailed (RunError RateLimited ''rate limited''))),
        [(45000000000, toAPIRequest (zeroRunRequest\<lparr>Prompt := ''hi''\<rparr>) HTTP)])
   \<and> (502::nat) \<noteq> 429"
  by (simp add: handleRun_def post_def decode_def maxBodyBytes_def stringFieldsDecoder_def
        jsonSpace_def fieldIs_def asciiLower_def More_def zeroRunRequest_def TrimSpace_def
        asciiSpace_def space2_def space3_def rateLimitedRuntime_def requestContext_def
        demoServer_def)

text \<open>
  C2. A POST request whose body decodes to a prompt that is empty or made of white space
  only is answered with status 400 and the error \<open>prompt is required\<close>, by \<open>handleRun\<close>
  and by \<open>handleStream\<close>, and the runtime has not been called.
\<close>

theorem blank_prompt_rejected_before_run:
  assumes "Method r = ''POST''" and "decode dec r = Inr req" and "whitespaceOnly (Prompt req)"
  shows "handleRun dec run s r = (JSONReply 400 (ErrorResponse PromptRequired), [])
         \<and> handleStream dec runStream marshal selects canFlush s r =
             (JSONReply 400 (ErrorResponse PromptRequired), [])"
  using assms TrimSpace_whitespaceOnly [of "Prompt req"]
  by (simp add: handleRun_def handleStream_def)

theorem blank_prompt_rejected_before_run_witness:
  "handleRun stringFieldsDecoder okRuntime demoServer (post (''{\"prompt\":\" '' @ [CHR 0x5C] @ ''t \"}'')) =
     (JSONReply 400 (ErrorResponse PromptRequired), [])
   \<and> handleStream stringFieldsDecoder (\<lambda>t rq. None) (\<lambda>ev. Some ev) [] True demoServer
        (post (''{\"prompt\":\" '' @ [CHR 0x5C] @ ''t \"}'')) =
     (JSONReply 400 (ErrorResponse PromptRequired) :: (unit, unit, unit) reply, [])
   \<and> handleRun stringFieldsDecoder okRuntime demoServer (post ''{\"session_id\":\"s\"}'') =
     (JSONReply 400 (ErrorResponse PromptRequired), [])"
proof -
  have m: "Method (post b) = ''POST''" for b by (simp add: post_def)
  have d1: "decode stringFieldsDecoder (post (''{\"prompt\":\" '' @ [CHR 0x5C] @ ''t \"}'')) =
      Inr (zeroRunRequest\<lparr>Prompt := [CHR '' '', CHR 0x09, CHR '' '']\<rparr>)"
    by (simp add: post_def decode_def maxBodyBytes_def stringFieldsDecoder_def jsonSpace_def
        fieldIs_def asciiLower_def More_def unescape_def)
  have w1: "whitespaceOnly (Prompt (zeroRunRequest\<lparr>Prompt := [CHR '' '', CHR 0x09, CHR '' '']\<rparr>))"
    unfolding whitespaceOnly_def
    by (rule exI [of _ "[[CHR '' ''], [CHR 0x09], [CHR '' '']]"]) (simp add: spaceRunes_def)
  have d2: "decode stringFieldsDecoder (post ''{\"session_id\":\"s\"}'') =
      Inr (zeroRunRequest\<lparr>SessionID := ''s''\<rparr>)"
    by (simp add: post_def decode_def maxBodyBytes_def stringFieldsDecoder_def jsonSpace_def
        fieldIs_def asciiLower_def More_def)
  have w2: "whitespaceOnly (Prompt (zeroRunRequest\<lparr>SessionID := ''s''\<rparr>))"
    unfolding whitespaceOnly_def
    by (rule exI [of _ "[]"]) (simp add: zeroRunRequest_def)
  from blank_prompt_rejected_before_run [OF m d1 w1]
       blank_prompt_rejected_before_run [OF m d2 w2]
  show ?thesis by blast
qed

text \<open>
  C6, as the code has it. The handlers read the first \<open>2 ^ 20\<close> bytes of the body and no
  more: a request is answered as the request with its body cut there. So a body over
  1 MiB is refused with status 400, the runtime not called, when its first 1 MiB does not
  decode or is followed by more JSON; nothing of what comes after the first 1 MiB can make
  the handler refuse it.
\<close>

theorem handlers_read_first_MiB_only:
  "handleRun dec run s (r\<lparr>Body := Some b\<rparr>) =
     handleRun dec run s (r\<lparr>Body := Some (take maxBodyBytes b)\<rparr>)
   \<and> handleStream dec runStream marshal selects canFlush s (r\<lparr>Body := Some b\<rparr>) =
     handleStream dec runStream marshal selects canFlush s (r\<lparr>Body := Some (take maxBodyBytes b)\<rparr>)
   \<and> ((\<exists>e. dec (take maxBodyBytes b) = Inl e)
       \<or> (\<exists>rq rest. dec (take maxBodyBytes b) = Inr (rq, rest) \<and> More rest) \<longrightarrow>
       status (fst (handleRun dec run s (post b))) = 400
       \<and> snd (handleRun dec run s (post b)) = [])"
proof -
  have a: "handleRun dec run s (r\<lparr>Body := Some b\<rparr>) =
     handleRun dec run s (r\<lparr>Body := Some (take maxBodyBytes b)\<rparr>)"
    by (simp add: handleRun_def decode_Body_take)
  have b: "handleStream dec runStream marshal selects canFlush s (r\<lparr>Body := Some b\<rparr>) =
     handleStream dec runStream marshal selects canFlush s (r\<lparr>Body := Some (take maxBodyBytes b)\<rparr>)"
    by (simp add: handleStream_def decode_Body_take)
  have c: "(\<exists>e. dec (take maxBodyBytes b) = Inl e)
       \<or> (\<exists>rq rest. dec (take maxBodyBytes b) = Inr (rq, rest) \<and> More rest) \<longrightarrow>
       status (fst (handleRun dec run s (post b))) = 400
       \<and> snd (handleRun dec run s (post b)) = []"
    by (auto simp: handleRun_def decode_def post_def)
  from a b c show ?thesis by blast
qed

theorem handlers_read_first_MiB_only_witness:
  "maxBodyBytes < length (''{\"prompt\":\"'' @ replicate 1048576 CHR ''a'' @ ''\"}'')
   \<and> stringFieldsDecoder
        (take maxBodyBytes (''{\"prompt\":\"'' @ replicate 1048576 CHR ''a'' @ ''\"}'')) =
       Inl UnexpectedEOF
   \<and> status (fst (handleRun stringFieldsDecoder okRuntime demoServer
        (post (''{\"prompt\":\"'' @ replicate 1048576 CHR ''a'' @ ''\"}'')))) = 400
   \<and> snd (handleRun stringFieldsDecoder okRuntime demoServer
        (post (''{\"prompt\":\"'' @ replicate 1048576 CHR ''a'' @ ''\"}''))) = []"
proof -
  have d: "stringFieldsDecoder
        (take maxBodyBytes (''{\"prompt\":\"'' @ replicate 1048576 CHR ''a'' @ ''\"}'')) =
       Inl UnexpectedEOF"
    by (simp add: maxBodyBytes_def stringFieldsDecoder_def jsonSpace_def scan_string_replicate)
  have l: "maxBodyBytes < length (''{\"prompt\":\"'' @ replicate 1048576 CHR ''a'' @ ''\"}'')"
    by (simp add: maxBodyBytes_def)
  from handlers_read_first_MiB_only
         [where dec = stringFieldsDecoder and run = okRuntime and s = demoServer
            and b = "''{\"prompt\":\"'' @ replicate 1048576 CHR ''a'' @ ''\"}''"] d l
  show ?thesis by blast
qed

theorem padded_body_over_MiB_accepted_counterexample:
  "maxBodyBytes < length (''{\"prompt\":\"hi\"}'' @ replicate 1048576 CHR '' '')
   \<and> handleRun stringFieldsDecoder okRuntime demoServer
        (post (''{\"prompt\":\"hi\"}'' @ replicate 1048576 CHR '' '')) =
       (JSONReply 200
          (RunPayload \<lparr> out_SessionID = [], out_Output = ''done'', out_StopReason = ''done'',
                        out_Usage = (), out_Tags = [], out_ToolCalls = [], out_Sandbox = () \<rparr>),
        [(45000000000, toAPIRequest (zeroRunRequest\<lparr>Prompt := ''hi''\<rparr>) HTTP)])"
proof -
  have l: "maxBodyBytes < length (''{\"prompt\":\"hi\"}'' @ replicate 1048576 CHR '' '')"
    by (simp add: maxBodyBytes_def)
  have "handleRun stringFieldsDecoder okRuntime demoServer
        (post (''{\"prompt\":\"hi\"}'' @ replicate 1048576 CHR '' '')) =
       (JSONReply 200
          (RunPayload \<lparr> out_SessionID = [], out_Output = ''done'', out_StopReason = ''done'',
                        out_Usage = (), out_Tags = [], out_ToolCalls = [], out_Sandbox = () \<rparr>),
        [(45000000000, toAPIRequest (zeroRunRequest\<lparr>Prompt := ''hi''\<rparr>) HTTP)])"
    unfolding handleRun_def padded_body_decodes
    by (simp add: post_def zeroRunRequest_def TrimSpace_def asciiSpace_def space2_def space3_def
          okRuntime_def buildRunResponse_def requestContext_def demoServer_def)
  with l show ?thesis by blast
qed

text \<open>
  C9. The \<open>session_id\<close> of a successful reply of \<open>handleRun\<close> is the \<open>session_id\<close> of the
  decoded request, whatever the runtime returned: \<open>buildRunResponse\<close> copies the string
  it is given. A request without \<open>session_id\<close> decodes to the empty string, and the reply
  carries the empty string.
\<close>

theorem reply_session_id_is_request_session_id:
  "(fst (handleRun dec run s r) = JSONReply 200 (RunPayload pl) \<longrightarrow>
      (\<exists>req. decode dec r = Inr req \<and> out_SessionID pl = SessionID req))
   \<and> (buildRunResponse resp sid = Inr pl' \<longrightarrow> out_SessionID pl' = sid)"
proof -
  have b: "buildRunResponse resp sid = Inr pl' \<longrightarrow> out_SessionID pl' = sid"
    by (auto simp: buildRunResponse_def split: option.splits)
  have a: "fst (handleRun dec run s r) = JSONReply 200 (RunPayload pl) \<longrightarrow>
      (\<exists>req. decode dec r = Inr req \<and> out_SessionID pl = SessionID req)"
    by (auto simp: handleRun_def Let_def buildRunResponse_def
          split: if_splits sum.splits option.splits)
  from a b show ?thesis by blast
qed

theorem reply_session_id_is_request_session_id_witness:
  "fst (handleRun stringFieldsDecoder okRuntime demoServer (post ''{\"prompt\":\"hi\"}'')) =
     JSONReply 200
       (RunPayload \<lparr> out_SessionID = [], out_Output = ''done'', out_StopReason = ''done'',
                     out_Usage = (), out_Tags = [], out_ToolCalls = [], out_Sandbox = () \<rparr>)
   \<and> decode stringFieldsDecoder (post ''{\"prompt\":\"hi\"}'') =
       Inr (zeroRunRequest\<lparr>Prompt := ''hi''\<rparr>)
   \<and> SessionID (zeroRunRequest\<lparr>Prompt := ''hi''\<rparr>) = []
   \<and> fst (handleRun stringFieldsDecoder okRuntime demoServer
          (post ''{\"prompt\":\"hi\",\"session_id\":\"s-1\"}'')) =
     JSONReply 200
       (RunPayload \<lparr> out_SessionID = ''s-1'', out_Output = ''done'', out_StopReason = ''done'',
                     out_Usage = (), out_Tags = [], out_ToolCalls = [], out_Sandbox = () \<rparr>)"
  using reply_session_id_is_request_session_id
          [of stringFieldsDecoder okRuntime demoServer "post ''{\"prompt\":\"hi\"}''"
              "\<lparr> out_SessionID = [], out_Output = ''done'', out_StopReason = ''done'',
                 out_Usage = (), out_Tags = [], out_ToolCalls = [], out_Sandbox = () \<rparr>"]
  by (simp add: handleRun_def post_def decode_def maxBodyBytes_def stringFieldsDecoder_def
        jsonSpace_def fieldIs_def asciiLower_def More_def zeroRunRequest_def TrimSpace_def
        asciiSpace_def space2_def space3_def okRuntime_def buildRunResponse_def
        requestContext_def demoServer_def)


text \<open>
  C8, as the tests have it. Over the defaults and the five layers, with precedence
  managed > runtime > local > project > user: a scalar field has the value of the highest
  layer that sets it; a map has, at each key, the value of the highest layer that has the
  key; a list of strings is the concatenation of the layers' lists from the lowest to the
  highest with duplicates removed, each element staying at its first occurrence; nested
  structures merge field by field in the same way. A list of MCP server rules is not
  concatenated: the higher list replaces the lower one when it has elements.
\<close>

theorem settings_layers_merge_by_precedence:
  "Model (loadLayers d u p l r m) =
     firstSet (\<lambda>v. v \<noteq> []) (map (map_option Model) [m, r, l, p, u]) (Model d)
   \<and> CleanupPeriodDays (loadLayers d u p l r m) =
       firstSet (\<lambda>v. v \<noteq> 0) (map (map_option CleanupPeriodDays) [m, r, l, p, u])
         (CleanupPeriodDays d)
   \<and> Env (loadLayers d u p l r m) k =
       firstSet (\<lambda>v. v \<noteq> None) (map (map_option (\<lambda>s. Env s k)) [m, r, l, p, u]) (Env d k)
   \<and> CompanyAnnouncements (loadLayers d u p l r m) =
       (if \<forall>x \<in> set [u, p, l, r, m]. x = None then CompanyAnnouncements d
        else dedup (CompanyAnnouncements d
                    @ layerLists CompanyAnnouncements [u, p, l, r, m]))
   \<and> Permissions (MergeSettings lo hi) = mergePermissions (Permissions lo) (Permissions hi)
   \<and> mergePermissions (Some pl) (Some ph) =
       Some \<lparr> Allow = dedup (Allow pl @ Allow ph), Deny = dedup (Deny pl @ Deny ph),
              Ask = dedup (Ask pl @ Ask ph),
              DefaultMode = (if DefaultMode ph \<noteq> [] then DefaultMode ph else DefaultMode pl),
              AdditionalDirectories =
                dedup (AdditionalDirectories pl @ AdditionalDirectories ph) \<rparr>
   \<and> mergeStringSlices xs ys = dedup (xs @ ys)
   \<and> distinct (dedup zs) \<and> set (dedup zs) = set zs
   \<and> dedup (zs @ [z]) = (if z \<in> set zs then dedup zs else dedup zs @ [z])
   \<and> mergeMCPServerRules rl rh = (if rh = [] then rl else rh)"
proof -
  have a: "Model (loadLayers d u p l r m) =
     firstSet (\<lambda>v. v \<noteq> []) (map (map_option Model) [m, r, l, p, u]) (Model d)"
    unfolding loadLayers_def foldl_applyLayer_Model by simp
  have b: "CleanupPeriodDays (loadLayers d u p l r m) =
       firstSet (\<lambda>v. v \<noteq> 0) (map (map_option CleanupPeriodDays) [m, r, l, p, u])
         (CleanupPeriodDays d)"
    unfolding loadLayers_def foldl_applyLayer_Cleanup by simp
  have c: "Env (loadLayers d u p l r m) k =
       firstSet (\<lambda>v. v \<noteq> None) (map (map_option (\<lambda>s. Env s k)) [m, r, l, p, u]) (Env d k)"
    unfolding loadLayers_def foldl_applyLayer_Env by simp
  have e: "CompanyAnnouncements (loadLayers d u p l r m) =
       (if \<forall>x \<in> set [u, p, l, r, m]. x = None then CompanyAnnouncements d
        else dedup (CompanyAnnouncements d
                    @ layerLists CompanyAnnouncements [u, p, l, r, m]))"
    unfolding loadLayers_def by (rule foldl_applyLayer_announcements_exact)
  have f: "Permissions (MergeSettings lo hi) = mergePermissions (Permissions lo) (Permissions hi)"
    by (simp add: MergeSettings_def)
  have g: "mergeStringSlices xs ys = dedup (xs @ ys)"
    by (simp add: mergeStringSlices_def)
  have h: "mergeMCPServerRules rl rh = (if rh = [] then rl else rh)"
    by (simp add: mergeMCPServerRules_def)
  from a b c e f mergePermissions_both [of pl ph] g h dedup_snoc [of zs z]
  show ?thesis by simp
qed

theorem settings_layers_merge_by_precedence_witness:
  "Model (loadLayers defaultSettings (Some userCfg) (Some projectCfg) (Some localCfg)
            (Some runtimeCfg) (Some managedCfg)) = ''managed-model''
   \<and> CleanupPeriodDays (loadLayers defaultSettings (Some userCfg) (Some projectCfg)
            (Some localCfg) (Some runtimeCfg) (Some managedCfg)) = 20
   \<and> Env (loadLayers defaultSettings (Some userCfg) (Some projectCfg) (Some localCfg)
            (Some runtimeCfg) (Some managedCfg)) ''C'' = Some ''managed''
   \<and> Env (loadLayers defaultSettings (Some userCfg) (Some projectCfg) (Some localCfg)
            (Some runtimeCfg) (Some managedCfg)) ''B'' = Some ''local''
   \<and> Model (loadLayers defaultSettings None (Some projectCfg) None None None) = ''project-model''
   \<and> mergeStringSlices [''a''] [''b'', ''a''] = [''a'', ''b'']
   \<and> mergeStringSlices [] [''a'', ''a'', ''b''] = [''a'', ''b'']"
proof -
  note five = settings_layers_merge_by_precedence
     [where d = defaultSettings and u = "Some userCfg" and p = "Some projectCfg"
        and l = "Some localCfg" and r = "Some runtimeCfg" and m = "Some managedCfg"
        and lo = emptySettings and hi = emptySettings
        and pl = emptyPermissions and ph = emptyPermissions
        and zs = "[]" and z = "''a''" and rl = "[]" and rh = "[]"]
  note one = settings_layers_merge_by_precedence
     [where d = defaultSettings and u = None and p = "Some projectCfg"
        and l = None and r = None and m = None and k = "''A''"
        and lo = emptySettings and hi = emptySettings
        and pl = emptyPermissions and ph = emptyPermissions
        and xs = "[]" and ys = "[''a'', ''a'', ''b'']"
        and zs = "[]" and z = "''a''" and rl = "[]" and rh = "[]"]
  have a: "Model (loadLayers defaultSettings (Some userCfg) (Some projectCfg) (Some localCfg)
            (Some runtimeCfg) (Some managedCfg)) = ''managed-model''"
    using five [where k = "''C''" and xs = "[''a'']" and ys = "[''b'', ''a'']", THEN conjunct1]
    by (simp add: managedCfg_def emptySettings_def)
  have b: "CleanupPeriodDays (loadLayers defaultSettings (Some userCfg) (Some projectCfg)
            (Some localCfg) (Some runtimeCfg) (Some managedCfg)) = 20"
    using five [where k = "''C''" and xs = "[''a'']" and ys = "[''b'', ''a'']",
                THEN conjunct2, THEN conjunct1]
    by (simp add: managedCfg_def runtimeCfg_def localCfg_def projectCfg_def emptySettings_def)
  have c: "Env (loadLayers defaultSettings (Some userCfg) (Some projectCfg) (Some localCfg)
            (Some runtimeCfg) (Some managedCfg)) ''C'' = Some ''managed''"
    using five [where k = "''C''" and xs = "[''a'']" and ys = "[''b'', ''a'']",
                THEN conjunct2, THEN conjunct2, THEN conjunct1]
    by (simp add: managedCfg_def emptySettings_def)
  have d: "Env (loadLayers defaultSettings (Some userCfg) (Some projectCfg) (Some localCfg)
            (Some runtimeCfg) (Some managedCfg)) ''B'' = Some ''local''"
    using five [where k = "''B''" and xs = "[''a'']" and ys = "[''b'', ''a'']",
                THEN conjunct2, THEN conjunct2, THEN conjunct1]
    by (simp add: managedCfg_def runtimeCfg_def localCfg_def emptySettings_def)
  have e: "Model (loadLayers defaultSettings None (Some projectCfg) None None None) = ''project-model''"
    using one [THEN conjunct1] by (simp add: projectCfg_def emptySettings_def)
  have f: "mergeStringSlices [''a''] [''b'', ''a''] = [''a'', ''b'']"
    using five [where k = "''C''" and xs = "[''a'']" and ys = "[''b'', ''a'']"] by simp
  have g: "mergeStringSlices [] [''a'', ''a'', ''b''] = [''a'', ''b'']"
    using one by simp
  from a b c d e f g show ?thesis by blast
qed

theorem rule_lists_replaced_counterexample:
  "mergeMCPServerRules [\<lparr>ServerName = ''low''\<rparr>] [\<lparr>ServerName = ''high''\<rparr>] =
     [\<lparr>ServerName = ''high''\<rparr>]
   \<and> dedup ([\<lparr>ServerName = ''low''\<rparr>] @ [\<lparr>ServerName = ''high''\<rparr>]) =
     [\<lparr>ServerName = ''low''\<rparr>, \<lparr>ServerName = ''high''\<rparr>]
   \<and> mergeMCPServerRules [\<lparr>ServerName = ''low''\<rparr>] [\<lparr>ServerName = ''high''\<rparr>] \<noteq>
     dedup ([\<lparr>ServerName = ''low''\<rparr>] @ [\<lparr>ServerName = ''high''\<rparr>])"
  by (simp add: mergeMCPServerRules_def)


text \<open>
  C10. For two manifests that differ only by a permutation of their \<^verbatim>\<open>Commands\<close>,
  \<^verbatim>\<open>Agents\<close> or \<^verbatim>\<open>Skills\<close> lists, or of the values under each key of \<^verbatim>\<open>Hooks\<close>
  (or by the order in which the map yields its keys), \<open>CanonicalManifestBytes\<close> returns
  the same result, byte for byte, whatever the marshaller; so \<open>SignManifest\<close> produces the
  same signature for both, and \<open>Verify\<close> on the canonical bytes gives the same verdict
  for both, under their own signature and under any signature.
\<close>

theorem CanonicalManifestBytes_order_insensitive:
  assumes "sameUpToOrder a b"
  shows "CanonicalManifestBytes lib (Some a) = CanonicalManifestBytes lib (Some b)
         \<and> SignManifest lib (Some a) privateKey = SignManifest lib (Some b) privateKey
         \<and> (\<forall>pa pb. CanonicalManifestBytes lib (Some a) = Inr pa
                    \<and> CanonicalManifestBytes lib (Some b) = Inr pb \<longrightarrow>
              pa = pb
              \<and> Verify lib ts (Some a) pa = Verify lib ts (Some b) pb
              \<and> Verify lib ts (Some (a\<lparr>Signature := sg\<rparr>)) pa =
                  Verify lib ts (Some (b\<lparr>Signature := sg\<rparr>)) pb)"
proof -
  from assms have p: "canonicalPayloadOf lib a = canonicalPayloadOf lib b"
    by (rule canonicalPayloadOf_cong)
  then have c: "CanonicalManifestBytes lib (Some a) = CanonicalManifestBytes lib (Some b)"
    by (simp add: CanonicalManifestBytes_def)
  then have s: "SignManifest lib (Some a) privateKey = SignManifest lib (Some b) privateKey"
    by (simp add: SignManifest_def)
  from assms have f: "Digest a = Digest b" "Signer a = Signer b" "Signature a = Signature b"
    by (simp_all add: sameUpToOrder_def)
  have v: "\<forall>pa pb. CanonicalManifestBytes lib (Some a) = Inr pa
                    \<and> CanonicalManifestBytes lib (Some b) = Inr pb \<longrightarrow>
              pa = pb
              \<and> Verify lib ts (Some a) pa = Verify lib ts (Some b) pb
              \<and> Verify lib ts (Some (a\<lparr>Signature := sg\<rparr>)) pa =
                  Verify lib ts (Some (b\<lparr>Signature := sg\<rparr>)) pb"
  proof (intro allI impI)
    fix pa pb
    assume h: "CanonicalManifestBytes lib (Some a) = Inr pa
               \<and> CanonicalManifestBytes lib (Some b) = Inr pb"
    with c have e: "pa = pb" by simp
    have v1: "Verify lib ts (Some a) pa = Verify lib ts (Some b) pa"
      by (rule Verify_reads_three_fields) (rule f)+
    have v2: "Verify lib ts (Some (a\<lparr>Signature := sg\<rparr>)) pa =
                   Verify lib ts (Some (b\<lparr>Signature := sg\<rparr>)) pa"
      by (rule Verify_reads_three_fields) (simp_all add: f)
    from e v1 v2 show "pa = pb
              \<and> Verify lib ts (Some a) pa = Verify lib ts (Some b) pb
              \<and> Verify lib ts (Some (a\<lparr>Signature := sg\<rparr>)) pa =
                  Verify lib ts (Some (b\<lparr>Signature := sg\<rparr>)) pb"
      by simp
  qed
  from c s v show ?thesis by blast
qed

theorem CanonicalManifestBytes_order_insensitive_witness:
  "sameUpToOrder demoManifest demoManifestPermuted
   \<and> CanonicalManifestBytes demoLibrary (Some demoManifestPermuted) =
       Inr ''demo;1.2.3;;;build,lint,test,;a,b,;;post=z,|pre=x,y,|;ab;dev;''
   \<and> SignManifest demoLibrary (Some demoManifest) ''k'' =
       SignManifest demoLibrary (Some demoManifestPermuted) ''k''
   \<and> Verify demoLibrary (Some demoTrustStore)
        (Some (demoManifestPermuted
                 \<lparr>Signature := ''kdemo;1.2.3;;;build,lint,test,;a,b,;;post=z,|pre=x,y,|;ab;dev;''\<rparr>))
        ''demo;1.2.3;;;build,lint,test,;a,b,;;post=z,|pre=x,y,|;ab;dev;'' = None"
proof -
  note T = CanonicalManifestBytes_order_insensitive
             [OF demo_sameUpToOrder, where lib = demoLibrary and privateKey = "''k''"
                and ts = "Some demoTrustStore"
                and sg = "''kdemo;1.2.3;;;build,lint,test,;a,b,;;post=z,|pre=x,y,|;ab;dev;''"]
  have b: "CanonicalManifestBytes demoLibrary (Some demoManifestPermuted) =
       Inr ''demo;1.2.3;;;build,lint,test,;a,b,;;post=z,|pre=x,y,|;ab;dev;''"
    using T [THEN conjunct1] demo_bytes by simp
  have s: "SignManifest demoLibrary (Some demoManifest) ''k'' =
       SignManifest demoLibrary (Some demoManifestPermuted) ''k''"
    using T [THEN conjunct2, THEN conjunct1] .
  have v0: "Verify demoLibrary (Some demoTrustStore)
        (Some (demoManifest
                 \<lparr>Signature := ''kdemo;1.2.3;;;build,lint,test,;a,b,;;post=z,|pre=x,y,|;ab;dev;''\<rparr>))
        ''demo;1.2.3;;;build,lint,test,;a,b,;;post=z,|pre=x,y,|;ab;dev;'' = None"
    by (simp add: Verify_def demoLibrary_def demoTrustStore_def demoManifest_def
          isDigestBlocked_def)
  have v: "Verify demoLibrary (Some demoTrustStore)
        (Some (demoManifestPermuted
                 \<lparr>Signature := ''kdemo;1.2.3;;;build,lint,test,;a,b,;;post=z,|pre=x,y,|;ab;dev;''\<rparr>))
        ''demo;1.2.3;;;build,lint,test,;a,b,;;post=z,|pre=x,y,|;ab;dev;'' = None"
    using T [THEN conjunct2, THEN conjunct2, THEN spec, THEN spec, THEN mp,
             OF conjI [OF demo_bytes b]] v0 by simp
  from demo_sameUpToOrder b s v show ?thesis by blast
qed

end
